theory Spec2Isabelle
  imports Complex_Main "HOL-Library.Multiset"
begin

section \<open>The bumper model of Stage: libstage, model bumper\<close>

text \<open>
  The bumper model simulates an array of binary touch sensors. The development follows
  \<^verbatim>\<open>model_bumper.cc\<close>: the object's fields are a record, each method is a function
  from the object to the object it leaves behind, a failed \<^verbatim>\<open>assert\<close> and a write
  outside an array are values of the type \<open>fault\<close>.

  Numbers: \<^verbatim>\<open>meters_t\<close>, \<^verbatim>\<open>radians_t\<close> and \<^verbatim>\<open>watts_t\<close> are C doubles; they are taken
  as real numbers here, so the rounding of floating-point arithmetic is not part of the
  model. Counts and indices are integers and naturals: the count is kept as the value
  of an \<^verbatim>\<open>unsigned int\<close>, below \<open>2\<^sup>3\<^sup>2\<close>, and no loop of the file can overflow its
  counter, since every counter is an \<^verbatim>\<open>unsigned int\<close> that stops at the count.
\<close>

subsection \<open>Data\<close>

text \<open>\<^verbatim>\<open>Pose\<close>: x, y, z and the heading a (radians).\<close>

record Pose =
  pose_x :: real
  pose_y :: real
  pose_z :: real
  pose_a :: real

text \<open>
  \<^verbatim>\<open>Pose()\<close>, the default constructor: everything zero. The class is declared in
  \<^verbatim>\<open>stage.hh\<close>; of a default constructed pose the source at hand overwrites x, y and a
  and leaves z alone, and no statement below rests on that z.
\<close>

definition Pose_default :: Pose where
  "Pose_default = \<lparr>pose_x = 0, pose_y = 0, pose_z = 0, pose_a = 0\<rparr>"

text \<open>\<^verbatim>\<open>bumper_config_t\<close>: the pose of the centre of a transducer and its length.\<close>

record bumper_config =
  pose :: Pose
  length_m :: real

text \<open>
  A model is known by its handle, a natural number (the \<^verbatim>\<open>Model*\<close> of the source);
  \<open>None\<close> is the null pointer.
\<close>

type_synonym mid = nat

text \<open>
  \<^verbatim>\<open>bumper_sample_t\<close>: \<open>hit\<close> is the model that was hit or null, \<open>hit_point\<close> a
  \<^verbatim>\<open>point_t\<close> (x, y). Both are plain fields of the struct.
\<close>

record bumper_sample =
  hit :: "mid option"
  hit_point :: "real \<times> real"

text \<open>
  An array made by \<^verbatim>\<open>new bumper_sample_t[n]\<close>. The object owns it alone, so its cells
  are kept with the pointer; \<open>ident\<close> tells one array object from another: it is the
  serial number of the allocation that made it.
\<close>

record sample_buffer =
  ident :: nat
  cells :: "bumper_sample list"

text \<open>
  The fields of \<^verbatim>\<open>ModelBumper\<close> that the file uses: the two array pointers, the count,
  and \<open>watts\<close>, the field of the base class that \<^verbatim>\<open>SetWatts\<close> stores into. The
  array of transducers is kept with its pointer (\<open>None\<close> is null); nothing below
  depends on which array object it is. The class is declared in \<^verbatim>\<open>stage.hh\<close>, which is
  not among the sources at hand. The source treats \<open>bumper_count\<close> as an unsigned
  field: every loop compares it with an \<^verbatim>\<open>unsigned int\<close> counter, and the one place that
  prints it with \<^verbatim>\<open>%d\<close> casts it to \<^verbatim>\<open>int\<close> first. The record keeps the value of the
  field, an integer from 0 up to \<open>2\<^sup>3\<^sup>2 - 1\<close>.

  Two fields record what the object did to the world outside: \<open>allocated\<close> counts the
  sample arrays it has made with \<^verbatim>\<open>new\<close>, \<open>issued\<close> lists the ray casts it has sent
  to the raytrace engine, each with its origin pose and its range, oldest first.
\<close>

record ModelBumper =
  bumpers :: "bumper_config list option"
  samples :: "sample_buffer option"
  bumper_count :: int
  watts :: real
  allocated :: nat
  issued :: "(Pose \<times> real) list"

datatype fault = AssertionFailed | OutOfBounds

definition BUMPER_WATTS :: real where
  "BUMPER_WATTS = 0.1"

subsection \<open>Constructor, Startup, Shutdown\<close>

text \<open>
  A failed \<^verbatim>\<open>assert\<close> stops the program; so does, in this model, an access outside an
  array (in C++ the behaviour is undefined from there on).

  The constructor sets both pointers to null and the count to 0. The power draw of a new
  model is a parameter (the base class sets it); nothing has been allocated or cast yet.
\<close>

definition ModelBumper_new :: "real \<Rightarrow> ModelBumper" where
  "ModelBumper_new w =
     \<lparr>bumpers = None, samples = None, bumper_count = 0, watts = w,
      allocated = 0, issued = []\<rparr>"

definition SetWatts :: "real \<Rightarrow> ModelBumper \<Rightarrow> ModelBumper" where
  "SetWatts w m = m\<lparr>watts := w\<rparr>"

text \<open>
  \<^verbatim>\<open>Model::Startup\<close> and \<^verbatim>\<open>Model::Shutdown\<close> act on the base class's own state, which
  is not among the fields above.
\<close>

definition Startup :: "ModelBumper \<Rightarrow> ModelBumper" where
  "Startup m = SetWatts BUMPER_WATTS m"

definition Shutdown :: "ModelBumper \<Rightarrow> ModelBumper" where
  "Shutdown m =
     (let m1 = SetWatts 0 m
      in (case samples m1 of
            Some buf \<Rightarrow> m1\<lparr>samples := None\<rparr>
          | None \<Rightarrow> m1))"

subsection \<open>The worldfile\<close>

text \<open>
  Modelled from the spec: the worldfile (\<^verbatim>\<open>worldfile.hh\<close>) is not part of the sources
  at hand. Following sections 4.4 and 6 of the specification, the entity of a model is
  the list of its properties as the file declares them, in the order of declaration, each
  a key with an already parsed value: an integer, a length in metres, or a tuple of
  numbers (lengths in metres, angles in radians). A lookup finds a property by its key.
\<close>

datatype wf_value = WInt int | WLength real | WTuple "real list"

type_synonym worldfile = "(string \<times> wf_value) list"

text \<open>
  Modelled from the spec: \<^verbatim>\<open>Worldfile::PropertyExists\<close> tells whether the key is
  declared.
\<close>

definition PropertyExists :: "worldfile \<Rightarrow> string \<Rightarrow> bool" where
  "PropertyExists wfile key = (map_of wfile key \<noteq> None)"

text \<open>
  Modelled from the spec: \<^verbatim>\<open>Worldfile::ReadInt\<close> returns the declared integer, and
  the default it was given when the key is absent (section 6: the absence of a key leaves
  the default in place) or holds a value of another shape.
\<close>

definition ReadInt :: "worldfile \<Rightarrow> string \<Rightarrow> int \<Rightarrow> int" where
  "ReadInt wfile key d = (case map_of wfile key of Some (WInt v) \<Rightarrow> v | _ \<Rightarrow> d)"

text \<open>
  Modelled from the spec: \<^verbatim>\<open>Worldfile::ReadLength\<close> returns the declared length, and
  the default under the same conditions.
\<close>

definition ReadLength :: "worldfile \<Rightarrow> string \<Rightarrow> real \<Rightarrow> real" where
  "ReadLength wfile key d = (case map_of wfile key of Some (WLength v) \<Rightarrow> v | _ \<Rightarrow> d)"

text \<open>
  Modelled from the spec: \<^verbatim>\<open>Worldfile::ReadTupleLength\<close> returns component \<open>i\<close> of
  the declared tuple, and the default when the key is absent, holds no tuple, or the tuple
  has no such component.
\<close>

definition ReadTupleLength :: "worldfile \<Rightarrow> string \<Rightarrow> nat \<Rightarrow> real \<Rightarrow> real" where
  "ReadTupleLength wfile key i d =
     (case map_of wfile key of
        Some (WTuple vs) \<Rightarrow> if i < length vs then vs ! i else d
      | _ \<Rightarrow> d)"

text \<open>
  Modelled from the spec: \<^verbatim>\<open>Worldfile::ReadTupleAngle\<close>, the same for a component
  that is an angle.
\<close>

definition ReadTupleAngle :: "worldfile \<Rightarrow> string \<Rightarrow> nat \<Rightarrow> real \<Rightarrow> real" where
  "ReadTupleAngle wfile key i d =
     (case map_of wfile key of
        Some (WTuple vs) \<Rightarrow> if i < length vs then vs ! i else d
      | _ \<Rightarrow> d)"

text \<open>
  \<^verbatim>\<open>snprintf(key, sizeof(key), "name[%d]", i)\<close>: the name, then the index in decimal
  between brackets. The index is an \<^verbatim>\<open>unsigned int\<close> given to \<^verbatim>\<open>%d\<close>: below \<open>2\<^sup>3\<^sup>1\<close>
  it is printed as it is, and from there on as the negative number with the same 32 bits.
  The buffer has 256 bytes and an index has at most ten digits and a sign, so the key is
  never cut.
\<close>

definition digit_char :: "nat \<Rightarrow> char" where
  "digit_char d = ''0123456789'' ! d"

function dec :: "nat \<Rightarrow> string" where
  "dec n = (if n < 10 then [digit_char n] else dec (n div 10) @ [digit_char (n mod 10)])"
  by pat_completeness auto
termination
  by (relation "measure id") auto

declare dec.simps [simp del]

definition printf_d :: "nat \<Rightarrow> string" where
  "printf_d i = (if i < 2 ^ 31 then dec i else ''-'' @ dec (2 ^ 32 - i))"

definition indexed_key :: "string \<Rightarrow> nat \<Rightarrow> string" where
  "indexed_key name i = name @ ''['' @ printf_d i @ '']''"

subsection \<open>Load\<close>

text \<open>
  The first loop of \<^verbatim>\<open>Load\<close>: every transducer gets the common length. The array was
  made with \<open>n\<close> elements just before, so \<open>i < n\<close> is an index of the array.
\<close>

function Load_common :: "real \<Rightarrow> nat \<Rightarrow> nat \<Rightarrow> bumper_config list \<Rightarrow> bumper_config list" where
  "Load_common common_length n i bs =
     (if i < n
      then Load_common common_length n (Suc i) (bs[i := (bs ! i)\<lparr>length_m := common_length\<rparr>])
      else bs)"
  by pat_completeness auto
termination
  by (relation "measure (\<lambda>(c, n, i, bs). n - i)") auto

declare Load_common.simps [simp del]

text \<open>
  The second loop: the four components of \<^verbatim>\<open>bpose[i]\<close>, each with the default 0, and
  \<^verbatim>\<open>blength[i]\<close>, with the length the transducer has by now as the default.
\<close>

function Load_each :: "worldfile \<Rightarrow> nat \<Rightarrow> nat \<Rightarrow> bumper_config list \<Rightarrow> bumper_config list" where
  "Load_each wfile n i bs =
     (if i < n
      then
        (let key = indexed_key ''bpose'' i;
             b = bs ! i;
             b1 = b\<lparr>pose := (pose b)\<lparr>pose_x := ReadTupleLength wfile key 0 0\<rparr>\<rparr>;
             b2 = b1\<lparr>pose := (pose b1)\<lparr>pose_y := ReadTupleLength wfile key 1 0\<rparr>\<rparr>;
             b3 = b2\<lparr>pose := (pose b2)\<lparr>pose_z := ReadTupleLength wfile key 2 0\<rparr>\<rparr>;
             b4 = b3\<lparr>pose := (pose b3)\<lparr>pose_a := ReadTupleAngle wfile key 3 0\<rparr>\<rparr>;
             key2 = indexed_key ''blength'' i;
             b5 = b4\<lparr>length_m := ReadLength wfile key2 (length_m b4)\<rparr>
         in Load_each wfile n (Suc i) (bs[i := b5]))
      else bs)"
  by pat_completeness auto
termination
  by (relation "measure (\<lambda>(wfile, n, i, bs). n - i)") auto

declare Load_each.simps [simp del]

text \<open>
  The assignment \<^verbatim>\<open>bumper_count = wf->ReadInt(...)\<close> converts the \<^verbatim>\<open>int\<close> that was
  read to the unsigned type of the field. \<^verbatim>\<open>ReadInt\<close> returns a C \<^verbatim>\<open>int\<close>, from
  \<open>-2\<^sup>3\<^sup>1\<close> up to \<open>2\<^sup>3\<^sup>1 - 1\<close>: one that is not negative converts to itself, a negative
  one wraps around modulo \<open>2\<^sup>3\<^sup>2\<close>.
\<close>

definition as_unsigned :: "int \<Rightarrow> int" where
  "as_unsigned v = (if 0 \<le> v then v else v mod 2 ^ 32)"

text \<open>
  \<^verbatim>\<open>Load\<close>. With the key \<^verbatim>\<open>bcount\<close> declared, the count is read (default 0), stored
  in the field, and the field is asserted positive, the old array is deleted and a new one of that many elements made,
  and the two loops fill it. What \<^verbatim>\<open>new bumper_config_t[n]\<close> hands out is the parameter
  \<open>raw\<close> (the content of element \<open>i\<close> before anything is stored in it). Without the
  key nothing changes. \<^verbatim>\<open>Model::Load\<close> acts on the base class's state. The pointer
  \<open>samples\<close> is not mentioned by \<^verbatim>\<open>Load\<close>.
\<close>

definition Load :: "worldfile \<Rightarrow> (nat \<Rightarrow> bumper_config) \<Rightarrow> ModelBumper \<Rightarrow> fault + ModelBumper" where
  "Load wfile raw m =
     (if PropertyExists wfile ''bcount''
      then
        (let n = as_unsigned (ReadInt wfile ''bcount'' 0)
         in if \<not> 0 < n then Inl AssertionFailed
            else
              (let fresh = map raw [0..<nat n];
                   common_length = ReadLength wfile ''blength'' 0;
                   bs1 = Load_common common_length (nat n) 0 fresh;
                   bs2 = Load_each wfile (nat n) 0 bs1
               in Inr (m\<lparr>bumper_count := n, bumpers := Some bs2\<rparr>)))
      else Inr m)"

subsection \<open>The model hierarchy and the matcher\<close>

text \<open>
  What \<^verbatim>\<open>bumper_match\<close> reads of a model: its parent (null for a top-level model) and
  the flag \<^verbatim>\<open>vis.obstacle_return\<close>. The world gives the model of each handle.
\<close>

record Model =
  parent :: "mid option"
  obstacle_return :: bool

type_synonym models = "mid \<Rightarrow> Model"

text \<open>
  Modelled from the spec: \<^verbatim>\<open>Model::IsRelated\<close> is not part of the sources at hand.
  Section 4.2: related is true if the candidate is self, an ancestor of self, or a
  descendant of self; section 4.3: it is found by walking the chain of ancestors in both
  directions. \<open>IsAntecedent ms a m\<close> says that the walk up from \<open>m\<close> meets \<open>a\<close>: \<open>a\<close>
  is the parent of \<open>m\<close>, or it is met on the walk up from the parent of \<open>m\<close>. It
  holds exactly of the models reached from \<open>m\<close> by one or more parent links, whatever
  the handles are.
\<close>

inductive IsAntecedent :: "models \<Rightarrow> mid \<Rightarrow> mid \<Rightarrow> bool" for ms :: models and a :: mid where
  parent_link: "parent (ms m) = Some a \<Longrightarrow> IsAntecedent ms a m"
| further_up: "parent (ms m) = Some p \<Longrightarrow> IsAntecedent ms a p \<Longrightarrow> IsAntecedent ms a m"

code_pred IsAntecedent .

text \<open>
  Modelled from the spec: \<^verbatim>\<open>Model::IsRelated\<close>, section 4.2: the same model, an
  ancestor, or a descendant.
\<close>

definition IsRelated :: "models \<Rightarrow> mid \<Rightarrow> mid \<Rightarrow> bool" where
  "IsRelated ms this that =
     (this = that \<or> IsAntecedent ms this that \<or> IsAntecedent ms that this)"

text \<open>
  The parent links of a world, each from a model to its parent; \<open>a\<close> is an ancestor of
  \<open>m\<close>, and \<open>m\<close> a descendant of \<open>a\<close>, when one or more links lead from \<open>m\<close> to
  \<open>a\<close>.
\<close>

definition parent_links :: "models \<Rightarrow> (mid \<times> mid) set" where
  "parent_links ms = {(c, p). parent (ms c) = Some p}"

text \<open>\<^verbatim>\<open>bumper_match\<close>: ignore myself, my children, and my ancestors.\<close>

definition bumper_match :: "models \<Rightarrow> mid \<Rightarrow> mid \<Rightarrow> bool" where
  "bumper_match ms candidate finder =
     (obstacle_return (ms candidate) \<and> \<not> IsRelated ms candidate finder)"

subsection \<open>Raytracing\<close>

text \<open>\<^verbatim>\<open>RaytraceResult\<close>: the model hit (null for a miss), the pose and the range.\<close>

record RaytraceResult =
  ray_mod :: "mid option"
  ray_pose :: Pose
  ray_range :: real

text \<open>
  \<^verbatim>\<open>Model::Raytrace(pose, range, func, arg)\<close> of the casting model is not part of the
  sources at hand; \<^verbatim>\<open>Update\<close> takes it as a parameter of this type: the pose of the
  probe, the range, and the matcher, which is given a candidate and the finder.
\<close>

type_synonym raytracer = "Pose \<Rightarrow> real \<Rightarrow> (mid \<Rightarrow> mid \<Rightarrow> bool) \<Rightarrow> RaytraceResult"

text \<open>
  Modelled from the spec: the raytrace engine and the spatial index (sections 4.1 and
  4.2), for the statements that are about what a cast returns. The index answers, for the
  casting model and a probe pose, with the crossings of that ray: each a model whose
  geometry the ray meets, with the pose and the distance of the meeting. The engine keeps
  the crossings within range (a distance from 0 up to, and not including, the range of the
  cast) whose model the matcher accepts for this finder, and returns the nearest; of two
  at the same distance the one the index lists first. With none left the result has no
  model, and carries the pose and range of the cast.
\<close>

record crossing =
  c_mod :: mid
  c_pose :: Pose
  c_range :: real

type_synonym spatial_index = "mid \<Rightarrow> Pose \<Rightarrow> crossing list"

text \<open>
  Modelled from the spec: the nearest of a list of crossings (section 4.1); of two at the
  same distance the earlier in the list.
\<close>

fun nearest :: "crossing list \<Rightarrow> crossing option" where
  "nearest [] = None"
| "nearest (c # cs) =
     (case nearest cs of
        None \<Rightarrow> Some c
      | Some d \<Rightarrow> if c_range c \<le> c_range d then Some c else Some d)"

text \<open>
  Modelled from the spec: \<^verbatim>\<open>Model::Raytrace\<close> of the model \<open>self\<close> over a spatial
  index, as described above.
\<close>

definition Model_Raytrace :: "spatial_index \<Rightarrow> mid \<Rightarrow> raytracer" where
  "Model_Raytrace idx self p max_range matcher =
     (case nearest (filter (\<lambda>c. 0 \<le> c_range c \<and> c_range c < max_range \<and> matcher (c_mod c) self)
                      (idx self p)) of
        None \<Rightarrow> \<lparr>ray_mod = None, ray_pose = p, ray_range = max_range\<rparr>
      | Some c \<Rightarrow> \<lparr>ray_mod = Some (c_mod c), ray_pose = c_pose c, ray_range = c_range c\<rparr>)"

subsection \<open>Update\<close>

text \<open>
  What one call of \<^verbatim>\<open>Update\<close> finds around the object: the models of the world, the
  \<^verbatim>\<open>Raytrace\<close> of this model, and what a new sample array would hold before anything is
  stored in it.
\<close>

record tick =
  world :: models
  Raytrace :: raytracer
  raw_samples :: "nat \<Rightarrow> bumper_sample"

text \<open>
  The pose of the probe of a transducer: rotated by \<open>\<pi>/2\<close>, at an extremity of the
  bumper. \<^verbatim>\<open>Pose bpose\<close> is default constructed, then a, x and y are assigned.
\<close>

definition probe :: "bumper_config \<Rightarrow> Pose" where
  "probe b =
     (let bpose = Pose_default;
          bpose = bpose\<lparr>pose_a := pose_a (pose b) + pi / 2\<rparr>;
          bpose = bpose\<lparr>pose_x := pose_x (pose b) - length_m b / 2 * cos (pose_a bpose)\<rparr>;
          bpose = bpose\<lparr>pose_y := pose_y (pose b) - length_m b / 2 * sin (pose_a bpose)\<rparr>
      in bpose)"

text \<open>
  The loop of \<^verbatim>\<open>Update\<close> over \<open>t < bumper_count\<close>, on the cells of the sample array and
  the list of casts issued. Reading \<^verbatim>\<open>bumpers[t]\<close> or writing \<^verbatim>\<open>samples[t]\<close> past the end
  of the array is the fault \<open>OutOfBounds\<close>. The cast is issued before the sample is
  written; \<open>hit_point\<close> is written only when the cast returned a model.
\<close>

function Update_loop ::
  "tick \<Rightarrow> bumper_config list \<Rightarrow> nat \<Rightarrow> nat \<Rightarrow> bumper_sample list \<times> (Pose \<times> real) list
     \<Rightarrow> fault + bumper_sample list \<times> (Pose \<times> real) list" where
  "Update_loop e bs n t (cs, casts) =
     (if t < n
      then
        if length bs \<le> t then Inl OutOfBounds
        else
          (let bpose = probe (bs ! t);
               ray = Raytrace e bpose (length_m (bs ! t)) (bumper_match (world e));
               casts1 = casts @ [(bpose, length_m (bs ! t))]
           in if length cs \<le> t then Inl OutOfBounds
              else
                (let s1 = (cs ! t)\<lparr>hit := ray_mod ray\<rparr>;
                     s2 = (if ray_mod ray \<noteq> None
                           then s1\<lparr>hit_point := (pose_x (ray_pose ray), pose_y (ray_pose ray))\<rparr>
                           else s1)
                 in Update_loop e bs n (Suc t) (cs[t := s2], casts1)))
      else Inr (cs, casts))"
  by pat_completeness auto
termination
  by (relation "measure (\<lambda>(e, bs, n, t, st). n - t)") auto

declare Update_loop.simps [simp del]

text \<open>
  \<^verbatim>\<open>Update\<close>. Nothing happens without a transducer array or with a count below 1. A
  missing sample array is made with \<^verbatim>\<open>new bumper_sample_t[bumper_count]\<close>; then the loop
  runs over the array the pointer holds. \<^verbatim>\<open>Model::Update\<close> acts on the base class's
  state.
\<close>

definition Update :: "tick \<Rightarrow> ModelBumper \<Rightarrow> fault + ModelBumper" where
  "Update e m =
     (case bumpers m of
        None \<Rightarrow> Inr m
      | Some bs \<Rightarrow>
          if bumper_count m < 1 then Inr m
          else
            (let m1 = (case samples m of
                         None \<Rightarrow>
                           m\<lparr>samples := Some \<lparr>ident = allocated m,
                                               cells = map (raw_samples e) [0..<nat (bumper_count m)]\<rparr>,
                              allocated := Suc (allocated m)\<rparr>
                       | Some buf \<Rightarrow> m)
             in (case samples m1 of
                   None \<Rightarrow> Inl AssertionFailed
                 | Some buf \<Rightarrow>
                     (case Update_loop e bs (nat (bumper_count m1)) 0 (cells buf, issued m1) of
                        Inl f \<Rightarrow> Inl f
                      | Inr (cs, casts) \<Rightarrow>
                          Inr (m1\<lparr>samples := Some (buf\<lparr>cells := cs\<rparr>), issued := casts\<rparr>)))))"

text \<open>A run of ticks: \<^verbatim>\<open>Update\<close> once per tick, each tick with its own surroundings.\<close>

fun Updates :: "tick list \<Rightarrow> ModelBumper \<Rightarrow> fault + ModelBumper" where
  "Updates [] m = Inr m"
| "Updates (e # es) m = (case Update e m of Inl f \<Rightarrow> Inl f | Inr m1 \<Rightarrow> Updates es m1)"

subsection \<open>What the loops compute\<close>

text \<open>
  The transducer that the second loop of \<^verbatim>\<open>Load\<close> leaves at index \<open>i\<close>, given the
  common length: the four components of \<^verbatim>\<open>bpose[i]\<close> and the length \<^verbatim>\<open>blength[i]\<close>,
  each with its default.
\<close>

definition loaded_config :: "worldfile \<Rightarrow> real \<Rightarrow> nat \<Rightarrow> bumper_config" where
  "loaded_config wfile common_length i =
     \<lparr>pose = \<lparr>pose_x = ReadTupleLength wfile (indexed_key ''bpose'' i) 0 0,
              pose_y = ReadTupleLength wfile (indexed_key ''bpose'' i) 1 0,
              pose_z = ReadTupleLength wfile (indexed_key ''bpose'' i) 2 0,
              pose_a = ReadTupleAngle wfile (indexed_key ''bpose'' i) 3 0\<rparr>,
      length_m = ReadLength wfile (indexed_key ''blength'' i) common_length\<rparr>"

text \<open>
  The sample that one round of the loop of \<^verbatim>\<open>Update\<close> leaves for a transducer, given
  the sample that was there.
\<close>

definition sample_after :: "tick \<Rightarrow> bumper_config \<Rightarrow> bumper_sample \<Rightarrow> bumper_sample" where
  "sample_after e b s =
     (let ray = Raytrace e (probe b) (length_m b) (bumper_match (world e))
      in if ray_mod ray \<noteq> None
         then s\<lparr>hit := ray_mod ray, hit_point := (pose_x (ray_pose ray), pose_y (ray_pose ray))\<rparr>
         else s\<lparr>hit := ray_mod ray\<rparr>)"

text \<open>
  The cells that the loop of \<^verbatim>\<open>Update\<close> starts from: those of the array the object
  holds, or those of the array that \<^verbatim>\<open>Update\<close> makes when it holds none.
\<close>

definition cells_before :: "tick \<Rightarrow> ModelBumper \<Rightarrow> bumper_sample list" where
  "cells_before e m =
     (case samples m of
        None \<Rightarrow> map (raw_samples e) [0..<nat (bumper_count m)]
      | Some buf \<Rightarrow> cells buf)"

text \<open>
  The object is in step with the transducers \<open>bs\<close>: it holds the array \<open>bs\<close>, the count
  is the length of \<open>bs\<close> and at least 1, and the sample array, if there is one, has one
  cell for each transducer.
\<close>

definition in_step :: "ModelBumper \<Rightarrow> bumper_config list \<Rightarrow> bool" where
  "in_step m bs =
     (bumpers m = Some bs \<and> bumper_count m = int (length bs) \<and> bs \<noteq> [] \<and>
      (case samples m of None \<Rightarrow> True | Some buf \<Rightarrow> length (cells buf) = length bs))"

subsection \<open>Worlds, files and objects for the examples\<close>

text \<open>A tick in which every cast misses, and one in which every cast hits model 7.\<close>

definition tick_miss :: tick where
  "tick_miss =
     \<lparr>world = (\<lambda>h. \<lparr>parent = None, obstacle_return = True\<rparr>),
      Raytrace = (\<lambda>p r f. \<lparr>ray_mod = None, ray_pose = p, ray_range = r\<rparr>),
      raw_samples = (\<lambda>t. \<lparr>hit = None, hit_point = (0, 0)\<rparr>)\<rparr>"

definition tick_hit :: tick where
  "tick_hit =
     \<lparr>world = (\<lambda>h. \<lparr>parent = None, obstacle_return = True\<rparr>),
      Raytrace = (\<lambda>p r f. \<lparr>ray_mod = Some 7,
                              ray_pose = \<lparr>pose_x = 1, pose_y = 2, pose_z = 0, pose_a = 0\<rparr>,
                              ray_range = 0.05\<rparr>),
      raw_samples = (\<lambda>t. \<lparr>hit = None, hit_point = (0, 0)\<rparr>)\<rparr>"

text \<open>
  A tick in which a cast hits model 7 when it starts at (0, -0.1) with heading \<open>\<pi>/2\<close>
  and has range 0.2, and misses otherwise.
\<close>

definition tick_probe :: tick where
  "tick_probe =
     \<lparr>world = (\<lambda>h. \<lparr>parent = None, obstacle_return = True\<rparr>),
      Raytrace = (\<lambda>p r f.
        if pose_x p = 0 \<and> pose_y p = - 0.1 \<and> pose_a p = pi / 2 \<and> r = 0.2
        then \<lparr>ray_mod = Some 7,
              ray_pose = \<lparr>pose_x = 0, pose_y = - 0.05, pose_z = 0, pose_a = 0\<rparr>,
              ray_range = 0.05\<rparr>
        else \<lparr>ray_mod = None, ray_pose = p, ray_range = r\<rparr>),
      raw_samples = (\<lambda>t. \<lparr>hit = None, hit_point = (0, 0)\<rparr>)\<rparr>"

text \<open>
  A tick with the modelled engine: one top-level model, number 3, lies on every ray at
  distance 0 from its origin; the casting model is number 9.
\<close>

definition tick_touch :: tick where
  "tick_touch =
     \<lparr>world = (\<lambda>h. \<lparr>parent = None, obstacle_return = True\<rparr>),
      Raytrace = Model_Raytrace (\<lambda>self p. [\<lparr>c_mod = 3, c_pose = p, c_range = 0\<rparr>]) 9,
      raw_samples = (\<lambda>t. \<lparr>hit = None, hit_point = (0, 0)\<rparr>)\<rparr>"

text \<open>
  A family: model 0 is the parent of model 6, which is the parent of model 1, which is
  the parent of model 2; the handle of the parent of model 1 is above its own. Models 3, 4
  and 5 are top-level, and model 4 does not return obstacles. Every ray of model 1 crosses
  them in the order 2, 1, 6, 0, 4, 3, 5.
\<close>

definition family :: models where
  "family h =
     \<lparr>parent = (if h = 6 then Some 0 else if h = 1 then Some 6 else if h = 2 then Some 1
                else None),
      obstacle_return = (h \<noteq> 4)\<rparr>"

definition line_of_crossings :: spatial_index where
  "line_of_crossings self p =
     [\<lparr>c_mod = 2, c_pose = p\<lparr>pose_y := 0.01\<rparr>, c_range = 0.01\<rparr>,
      \<lparr>c_mod = 1, c_pose = p\<lparr>pose_y := 0.02\<rparr>, c_range = 0.02\<rparr>,
      \<lparr>c_mod = 6, c_pose = p\<lparr>pose_y := 0.025\<rparr>, c_range = 0.025\<rparr>,
      \<lparr>c_mod = 0, c_pose = p\<lparr>pose_y := 0.03\<rparr>, c_range = 0.03\<rparr>,
      \<lparr>c_mod = 4, c_pose = p\<lparr>pose_y := 0.04\<rparr>, c_range = 0.04\<rparr>,
      \<lparr>c_mod = 3, c_pose = p\<lparr>pose_y := 0.05\<rparr>, c_range = 0.05\<rparr>,
      \<lparr>c_mod = 5, c_pose = p\<lparr>pose_y := 0.3\<rparr>, c_range = 0.3\<rparr>]"

definition tick_family :: tick where
  "tick_family =
     \<lparr>world = family,
      Raytrace = Model_Raytrace line_of_crossings 1,
      raw_samples = (\<lambda>t. \<lparr>hit = None, hit_point = (0, 0)\<rparr>)\<rparr>"

text \<open>Worldfiles. The first two declare the same three properties in two orders.\<close>

definition file_a :: worldfile where
  "file_a = [(''blength[1]'', WLength 0.3), (''bcount'', WInt 3), (''blength'', WLength 0.1)]"

definition file_b :: worldfile where
  "file_b = [(''bcount'', WInt 3), (''blength'', WLength 0.1), (''blength[1]'', WLength 0.3)]"

definition file_one :: worldfile where
  "file_one = [(''bcount'', WInt 1), (''bpose[0]'', WTuple [0, 0, 0, 0]), (''blength'', WLength 0.2)]"

definition file_three :: worldfile where
  "file_three = [(''bcount'', WInt 3), (''blength'', WLength 0.2)]"

definition file_zero :: worldfile where
  "file_zero = [(''bcount'', WInt 0)]"

definition file_negative :: worldfile where
  "file_negative = [(''bcount'', WInt (- 1)), (''blength'', WLength 0.1)]"

definition file_gap :: worldfile where
  "file_gap = [(''bcount'', WInt 2), (''blength[1]'', WLength 0.2)]"

text \<open>What a new array of transducers holds in the examples.\<close>

definition raw_config :: "nat \<Rightarrow> bumper_config" where
  "raw_config i = \<lparr>pose = Pose_default, length_m = 0\<rparr>"

text \<open>
  The transducer at pose (0, 0, 0, 0) of length 0.2; the object that \<^verbatim>\<open>Load\<close> makes of
  a new model and \<open>file_one\<close>; and that object after \<^verbatim>\<open>Startup\<close> and one tick in which
  the cast hit.
\<close>

definition strip_02 :: bumper_config where
  "strip_02 = \<lparr>pose = \<lparr>pose_x = 0, pose_y = 0, pose_z = 0, pose_a = 0\<rparr>, length_m = 0.2\<rparr>"

definition loaded_one :: ModelBumper where
  "loaded_one =
     \<lparr>bumpers = Some [strip_02], samples = None, bumper_count = 1, watts = 0,
      allocated = 0, issued = []\<rparr>"

definition after_hit :: ModelBumper where
  "after_hit =
     \<lparr>bumpers = Some [strip_02],
      samples = Some \<lparr>ident = 0, cells = [\<lparr>hit = Some 7, hit_point = (1, 2)\<rparr>]\<rparr>,
      bumper_count = 1, watts = 0.1, allocated = 1,
      issued = [(probe strip_02, 0.2)]\<rparr>"

section \<open>The loops\<close>

subsection \<open>Records written field by field\<close>

lemma Pose_overwrite:
  "(p::Pose)\<lparr>pose_x := vx, pose_y := vy, pose_z := vz, pose_a := va\<rparr> =
   \<lparr>pose_x = vx, pose_y = vy, pose_z = vz, pose_a = va\<rparr>"
  by (cases p) simp

lemma config_overwrite:
  "(b::bumper_config)\<lparr>pose := q, length_m := l\<rparr> = \<lparr>pose = q, length_m = l\<rparr>"
  by (cases b) simp

lemma buffer_overwrite: "(buf::sample_buffer)\<lparr>cells := cs\<rparr> = \<lparr>ident = ident buf, cells = cs\<rparr>"
  by (cases buf) simp

subsection \<open>The loops of Load\<close>

lemma Load_common_length: "length (Load_common c n i bs) = length bs"
proof (induction c n i bs rule: Load_common.induct)
  case (1 c n i bs)
  then show ?case by (subst Load_common.simps) simp
qed

lemma Load_common_nth:
  "j < length bs \<Longrightarrow>
   Load_common c n i bs ! j = (if i \<le> j \<and> j < n then (bs ! j)\<lparr>length_m := c\<rparr> else bs ! j)"
proof (induction k \<equiv> "n - i" arbitrary: i bs)
  case 0
  then show ?case by (subst Load_common.simps) simp
next
  case (Suc k)
  then have lt: "i < n" and k: "k = n - Suc i" by linarith+
  let ?bs = "bs[i := (bs ! i)\<lparr>length_m := c\<rparr>]"
  have j: "j < length ?bs" using Suc.prems by simp
  have step: "Load_common c n i bs = Load_common c n (Suc i) ?bs"
    using lt by (subst Load_common.simps) simp
  show ?case
    unfolding step Suc.hyps(1)[OF k j]
    using Suc.prems lt by (cases "j = i") (simp_all add: nth_list_update)
qed

lemma Load_each_step:
  "i < n \<Longrightarrow>
   Load_each wfile n i bs =
     Load_each wfile n (Suc i) (bs[i := loaded_config wfile (length_m (bs ! i)) i])"
  by (subst Load_each.simps) (simp add: Let_def loaded_config_def Pose_overwrite config_overwrite)

lemma Load_each_stop: "\<not> i < n \<Longrightarrow> Load_each wfile n i bs = bs"
  by (subst Load_each.simps) simp

lemma Load_each_length: "length (Load_each wfile n i bs) = length bs"
proof (induction k \<equiv> "n - i" arbitrary: i bs)
  case 0
  then show ?case by (simp add: Load_each_stop)
next
  case (Suc k)
  then have lt: "i < n" and k: "k = n - Suc i" by linarith+
  show ?case by (simp add: Load_each_step[OF lt] Suc.hyps(1)[OF k])
qed

lemma Load_each_nth:
  "j < length bs \<Longrightarrow>
   Load_each wfile n i bs ! j =
     (if i \<le> j \<and> j < n then loaded_config wfile (length_m (bs ! j)) j else bs ! j)"
proof (induction k \<equiv> "n - i" arbitrary: i bs)
  case 0
  then show ?case by (simp add: Load_each_stop)
next
  case (Suc k)
  then have lt: "i < n" and k: "k = n - Suc i" by linarith+
  let ?bs = "bs[i := loaded_config wfile (length_m (bs ! i)) i]"
  have j: "j < length ?bs" using Suc.prems by simp
  show ?case
    unfolding Load_each_step[OF lt] Suc.hyps(1)[OF k j]
    using Suc.prems lt by (cases "j = i") (simp_all add: nth_list_update)
qed

lemma Load_loops:
  "length bs = n \<Longrightarrow>
   Load_each wfile n 0 (Load_common c n 0 bs) = map (loaded_config wfile c) [0..<n]"
  by (rule nth_equalityI)
     (simp_all add: Load_each_length Load_common_length Load_each_nth Load_common_nth)

lemma as_unsigned_nonneg: "0 \<le> v \<Longrightarrow> as_unsigned v = v"
  by (simp add: as_unsigned_def)

lemma Load_closed:
  "Load wfile raw m =
     (if PropertyExists wfile ''bcount''
      then if 0 < as_unsigned (ReadInt wfile ''bcount'' 0)
           then Inr (m\<lparr>bumper_count := as_unsigned (ReadInt wfile ''bcount'' 0),
                       bumpers := Some (map (loaded_config wfile (ReadLength wfile ''blength'' 0))
                                          [0..<nat (as_unsigned (ReadInt wfile ''bcount'' 0))])\<rparr>)
           else Inl AssertionFailed
      else Inr m)"
  by (simp add: Load_def Let_def Load_loops)

lemma Load_some:
  "PropertyExists wfile ''bcount'' \<Longrightarrow> 0 < ReadInt wfile ''bcount'' 0 \<Longrightarrow>
   Load wfile raw m =
     Inr (m\<lparr>bumper_count := ReadInt wfile ''bcount'' 0,
            bumpers := Some (map (loaded_config wfile (ReadLength wfile ''blength'' 0))
                               [0..<nat (ReadInt wfile ''bcount'' 0)])\<rparr>)"
  by (simp add: Load_closed as_unsigned_nonneg)

lemma Load_in_step_field:
  assumes "PropertyExists wfile ''bcount''" and "Load wfile raw m = Inr m'"
    and "samples m = None"
  shows "\<exists>bs. in_step m' bs \<and> samples m' = None \<and> allocated m' = allocated m \<and>
           0 < bumper_count m'"
  using assms by (auto simp add: Load_closed in_step_def split: if_splits)

lemma Load_in_step:
  assumes "PropertyExists wfile ''bcount''" and "0 < ReadInt wfile ''bcount'' 0"
    and "samples m = None"
  shows "\<exists>m' bs. Load wfile raw m = Inr m' \<and> in_step m' bs \<and> samples m' = None \<and>
           allocated m' = allocated m \<and> issued m' = issued m \<and> watts m' = watts m \<and>
           bumper_count m' = ReadInt wfile ''bcount'' 0 \<and>
           bs = map (loaded_config wfile (ReadLength wfile ''blength'' 0))
                  [0..<nat (ReadInt wfile ''bcount'' 0)]"
  using assms by (simp add: Load_some in_step_def)

lemma map_of_reordered:
  assumes "distinct (map fst xs)" and "mset ys = mset xs"
  shows "map_of ys = map_of xs"
proof -
  have "mset (map fst ys) = mset (map fst xs)" using assms(2) by simp
  then have "distinct (map fst ys)" using assms(1) by (metis mset_eq_imp_distinct_iff)
  moreover have "set ys = set xs" using assms(2) by (metis mset_eq_setD)
  ultimately show ?thesis using assms(1) by (simp add: map_of_inject_set)
qed

lemma Load_reordered:
  assumes "map_of wfile' = map_of wfile"
  shows "Load wfile' raw' m = Load wfile raw m"
proof -
  have "loaded_config wfile' = loaded_config wfile"
    using assms
    by (intro ext) (simp add: loaded_config_def ReadTupleLength_def ReadTupleAngle_def ReadLength_def)
  moreover have "PropertyExists wfile' = PropertyExists wfile" "ReadInt wfile' = ReadInt wfile"
    "ReadLength wfile' = ReadLength wfile"
    using assms by (intro ext, simp add: PropertyExists_def ReadInt_def ReadLength_def)+
  ultimately show ?thesis by (simp add: Load_closed)
qed

lemma dec_digit: "n < 10 \<Longrightarrow> dec n = [digit_char n]"
  by (subst dec.simps) simp

lemma printf_d_digit: "n < 10 \<Longrightarrow> printf_d n = [digit_char n]"
  by (simp add: printf_d_def dec_digit)

subsection \<open>The loop of Update\<close>

lemma probe_explicit:
  "probe b =
     \<lparr>pose_x = pose_x (pose b) - length_m b / 2 * cos (pose_a (pose b) + pi / 2),
      pose_y = pose_y (pose b) - length_m b / 2 * sin (pose_a (pose b) + pi / 2),
      pose_z = 0,
      pose_a = pose_a (pose b) + pi / 2\<rparr>"
  by (simp add: probe_def Pose_default_def Let_def)

lemma Update_loop_stop: "\<not> t < n \<Longrightarrow> Update_loop e bs n t (cs, casts) = Inr (cs, casts)"
  by (subst Update_loop.simps) simp

lemma Update_loop_step:
  "t < n \<Longrightarrow> t < length bs \<Longrightarrow> t < length cs \<Longrightarrow>
   Update_loop e bs n t (cs, casts) =
     Update_loop e bs n (Suc t)
       (cs[t := sample_after e (bs ! t) (cs ! t)], casts @ [(probe (bs ! t), length_m (bs ! t))])"
  by (subst Update_loop.simps) (simp add: Let_def sample_after_def)

lemma Update_loop_overrun:
  "t < n \<Longrightarrow> length cs \<le> t \<or> length bs \<le> t \<Longrightarrow> Update_loop e bs n t (cs, casts) = Inl OutOfBounds"
  by (subst Update_loop.simps) (auto simp add: Let_def)

lemma Update_loop_runs:
  "n \<le> length bs \<Longrightarrow> n \<le> length cs \<Longrightarrow>
   \<exists>cs'. Update_loop e bs n t (cs, casts) =
            Inr (cs', casts @ map (\<lambda>j. (probe (bs ! j), length_m (bs ! j))) [t..<n]) \<and>
         length cs' = length cs \<and>
         (\<forall>j<length cs. cs' ! j =
            (if t \<le> j \<and> j < n then sample_after e (bs ! j) (cs ! j) else cs ! j))"
proof (induction k \<equiv> "n - t" arbitrary: t cs casts)
  case 0
  then have "\<not> t < n" by simp
  then show ?case by (auto simp add: Update_loop_stop)
next
  case (Suc k)
  then have lt: "t < n" and k: "k = n - Suc t" by linarith+
  let ?cs = "cs[t := sample_after e (bs ! t) (cs ! t)]"
  let ?casts = "casts @ [(probe (bs ! t), length_m (bs ! t))]"
  have len: "n \<le> length ?cs" using Suc.prems by simp
  from Suc.hyps(1)[OF k Suc.prems(1) len, of ?casts]
  obtain cs' where run: "Update_loop e bs n (Suc t) (?cs, ?casts) =
        Inr (cs', ?casts @ map (\<lambda>j. (probe (bs ! j), length_m (bs ! j))) [Suc t..<n])"
    and l: "length cs' = length ?cs"
    and nth: "\<forall>j<length ?cs. cs' ! j =
            (if Suc t \<le> j \<and> j < n then sample_after e (bs ! j) (?cs ! j) else ?cs ! j)"
    by blast
  have step: "Update_loop e bs n t (cs, casts) = Update_loop e bs n (Suc t) (?cs, ?casts)"
    using lt Suc.prems by (intro Update_loop_step) simp_all
  have casts: "?casts @ map (\<lambda>j. (probe (bs ! j), length_m (bs ! j))) [Suc t..<n] =
               casts @ map (\<lambda>j. (probe (bs ! j), length_m (bs ! j))) [t..<n]"
    using lt by (simp add: upt_conv_Cons)
  have "\<forall>j<length cs. cs' ! j =
          (if t \<le> j \<and> j < n then sample_after e (bs ! j) (cs ! j) else cs ! j)"
  proof (intro allI impI)
    fix j assume j: "j < length cs"
    with nth have "cs' ! j =
        (if Suc t \<le> j \<and> j < n then sample_after e (bs ! j) (?cs ! j) else ?cs ! j)"
      by simp
    then show "cs' ! j = (if t \<le> j \<and> j < n then sample_after e (bs ! j) (cs ! j) else cs ! j)"
      using j lt by (cases "j = t") (simp_all add: nth_list_update)
  qed
  with run l step casts show ?case by simp
qed

lemma Update_loop_overrun_later:
  "length cs < n \<Longrightarrow> n \<le> length bs \<Longrightarrow> t \<le> length cs \<Longrightarrow>
   Update_loop e bs n t (cs, casts) = Inl OutOfBounds"
proof (induction k \<equiv> "length cs - t" arbitrary: t cs casts)
  case 0
  then show ?case by (intro Update_loop_overrun) simp_all
next
  case (Suc k)
  then have lt: "t < length cs" and k: "k = length (cs[t := sample_after e (bs ! t) (cs ! t)]) - Suc t"
    by simp_all
  have step: "Update_loop e bs n t (cs, casts) =
      Update_loop e bs n (Suc t)
       (cs[t := sample_after e (bs ! t) (cs ! t)], casts @ [(probe (bs ! t), length_m (bs ! t))])"
    using lt Suc.prems by (intro Update_loop_step) simp_all
  show ?case unfolding step
    using Suc.prems lt by (intro Suc.hyps(1)[OF k]) simp_all
qed

lemma Update_loop_whole:
  assumes "length cs = length bs"
  shows "Update_loop e bs (length bs) 0 (cs, casts) =
           Inr (map (\<lambda>t. sample_after e (bs ! t) (cs ! t)) [0..<length bs],
                casts @ map (\<lambda>b. (probe b, length_m b)) bs)"
proof -
  from Update_loop_runs[of "length bs" bs cs e 0 casts] assms
  obtain cs' where run: "Update_loop e bs (length bs) 0 (cs, casts) =
            Inr (cs', casts @ map (\<lambda>j. (probe (bs ! j), length_m (bs ! j))) [0..<length bs])"
    and l: "length cs' = length cs"
    and nth: "\<forall>j<length cs. cs' ! j =
            (if 0 \<le> j \<and> j < length bs then sample_after e (bs ! j) (cs ! j) else cs ! j)"
    by auto
  have "cs' = map (\<lambda>t. sample_after e (bs ! t) (cs ! t)) [0..<length bs]"
    using l nth assms by (intro nth_equalityI) simp_all
  moreover have "map (\<lambda>j. (probe (bs ! j), length_m (bs ! j))) [0..<length bs] =
                 map (\<lambda>b. (probe b, length_m b)) bs"
    by (intro nth_equalityI) simp_all
  ultimately show ?thesis using run by simp
qed

lemma Update_in_step:
  assumes "in_step m bs"
  shows "Update e m =
     Inr (m\<lparr>samples := Some \<lparr>ident = (case samples m of None \<Rightarrow> allocated m | Some buf \<Rightarrow> ident buf),
                                cells = map (\<lambda>t. sample_after e (bs ! t) (cells_before e m ! t))
                                          [0..<length bs]\<rparr>,
            allocated := (case samples m of None \<Rightarrow> Suc (allocated m) | Some buf \<Rightarrow> allocated m),
            issued := issued m @ map (\<lambda>b. (probe b, length_m b)) bs\<rparr>)"
proof (cases "samples m")
  case None
  with assms show ?thesis
    by (simp add: in_step_def Update_def cells_before_def Update_loop_whole)
next
  case (Some buf)
  with assms show ?thesis
    by (simp add: in_step_def Update_def cells_before_def Update_loop_whole buffer_overwrite)
qed

lemma Update_keeps_in_step:
  assumes "in_step m bs" and "Update e m = Inr m'"
  shows "in_step m' bs"
  using assms(2) assms(1) unfolding Update_in_step[OF assms(1)]
  by (auto simp add: in_step_def)

lemma Startup_in_step: "in_step m bs \<Longrightarrow> in_step (Startup m) bs"
  by (simp add: in_step_def Startup_def SetWatts_def)

lemma Updates_reuse:
  assumes "in_step m bs" and "samples m = Some buf"
  shows "\<exists>m' buf'. Updates es m = Inr m' \<and> in_step m' bs \<and> samples m' = Some buf' \<and>
           ident buf' = ident buf \<and> allocated m' = allocated m"
  using assms
proof (induction es arbitrary: m buf)
  case Nil
  then show ?case by simp
next
  case (Cons e es)
  let ?m1 = "m\<lparr>samples := Some \<lparr>ident = ident buf,
                                cells = map (\<lambda>t. sample_after e (bs ! t) (cells_before e m ! t))
                                          [0..<length bs]\<rparr>,
            allocated := allocated m,
            issued := issued m @ map (\<lambda>b. (probe b, length_m b)) bs\<rparr>"
  have u: "Update e m = Inr ?m1"
    using Update_in_step[OF Cons.prems(1), of e] Cons.prems(2) by simp
  have s: "in_step ?m1 bs" by (rule Update_keeps_in_step[OF Cons.prems(1) u])
  have b: "samples ?m1 = Some \<lparr>ident = ident buf,
                                cells = map (\<lambda>t. sample_after e (bs ! t) (cells_before e m ! t))
                                          [0..<length bs]\<rparr>" by simp
  from Cons.IH[OF s b] show ?case using u by simp
qed

lemma Updates_reuse_length:
  assumes "in_step m bs" and "samples m = Some buf"
  shows "\<exists>m' buf'. Updates es m = Inr m' \<and> samples m' = Some buf' \<and>
           ident buf' = ident buf \<and> length (cells buf') = length (cells buf) \<and>
           allocated m' = allocated m"
proof -
  from Updates_reuse[OF assms, of es]
  obtain m' buf' where u: "Updates es m = Inr m'" and s: "in_step m' bs"
    and b: "samples m' = Some buf'" and i: "ident buf' = ident buf"
    and a: "allocated m' = allocated m"
    by blast
  have "length (cells buf') = length bs" using s b by (simp add: in_step_def)
  moreover have "length (cells buf) = length bs" using assms by (simp add: in_step_def)
  ultimately show ?thesis using u b i a by simp
qed

lemma sample_after_hit:
  "hit (sample_after e b s) = ray_mod (Raytrace e (probe b) (length_m b) (bumper_match (world e)))"
  by (simp add: sample_after_def Let_def)

lemma sample_after_hit_point:
  "hit_point (sample_after e b s) =
     (let ray = Raytrace e (probe b) (length_m b) (bumper_match (world e))
      in if ray_mod ray \<noteq> None then (pose_x (ray_pose ray), pose_y (ray_pose ray))
         else hit_point s)"
  by (simp add: sample_after_def Let_def)

subsection \<open>The ancestor walk\<close>

text \<open>
  The walk finds exactly the ancestors: the models reached from \<open>m\<close> by one or more
  parent links.
\<close>

lemma IsAntecedent_unfold:
  "IsAntecedent ms a m \<longleftrightarrow>
     (case parent (ms m) of None \<Rightarrow> False | Some p \<Rightarrow> p = a \<or> IsAntecedent ms a p)"
proof
  assume "IsAntecedent ms a m"
  then show "case parent (ms m) of None \<Rightarrow> False | Some p \<Rightarrow> p = a \<or> IsAntecedent ms a p"
    by (cases rule: IsAntecedent.cases) simp_all
next
  assume "case parent (ms m) of None \<Rightarrow> False | Some p \<Rightarrow> p = a \<or> IsAntecedent ms a p"
  then show "IsAntecedent ms a m"
    by (auto split: option.splits intro: IsAntecedent.intros)
qed

lemma IsAntecedent_is_ancestry:
  "IsAntecedent ms a m \<longleftrightarrow> (m, a) \<in> (parent_links ms)\<^sup>+"
proof
  assume "IsAntecedent ms a m"
  then show "(m, a) \<in> (parent_links ms)\<^sup>+"
  proof (induction rule: IsAntecedent.induct)
    case (parent_link m)
    then have "(m, a) \<in> parent_links ms" by (simp add: parent_links_def)
    then show ?case by (rule r_into_trancl)
  next
    case (further_up m p)
    then have "(m, p) \<in> parent_links ms" by (simp add: parent_links_def)
    then show ?case using further_up.IH by (rule trancl_into_trancl2)
  qed
next
  assume "(m, a) \<in> (parent_links ms)\<^sup>+"
  then show "IsAntecedent ms a m"
  proof (induction rule: converse_trancl_induct)
    case (base c)
    then show ?case by (simp add: parent_links_def parent_link)
  next
    case (step c p)
    then have "parent (ms c) = Some p" by (simp add: parent_links_def)
    then show ?case using step.IH by (rule further_up)
  qed
qed

lemma bumper_match_by_links:
  "bumper_match ms candidate finder \<longleftrightarrow>
     obstacle_return (ms candidate) \<and> candidate \<noteq> finder \<and>
     (finder, candidate) \<notin> (parent_links ms)\<^sup>+ \<and>
     (candidate, finder) \<notin> (parent_links ms)\<^sup>+"
  by (auto simp add: bumper_match_def IsRelated_def IsAntecedent_is_ancestry)

subsection \<open>The modelled engine\<close>

lemma nearest_in: "nearest cs = Some c \<Longrightarrow> c \<in> set cs"
  by (induction cs arbitrary: c) (auto split: option.splits if_splits)

lemma Model_Raytrace_accepts:
  assumes "ray_mod (Model_Raytrace idx self p r matcher) = Some h"
  shows "matcher h self"
proof -
  let ?cs = "filter (\<lambda>c. 0 \<le> c_range c \<and> c_range c < r \<and> matcher (c_mod c) self) (idx self p)"
  from assms obtain c where n: "nearest ?cs = Some c" and h: "c_mod c = h"
    by (auto simp add: Model_Raytrace_def split: option.splits)
  from nearest_in[OF n] h show ?thesis by simp
qed

lemma Model_Raytrace_zero_range: "ray_mod (Model_Raytrace idx self p 0 matcher) = None"
proof -
  have "filter (\<lambda>c. 0 \<le> c_range c \<and> c_range c < 0 \<and> matcher (c_mod c) self) (idx self p) = []"
    by (simp add: filter_empty_conv)
  then show ?thesis by (simp add: Model_Raytrace_def)
qed

subsection \<open>The examples, computed\<close>

lemma upt_2: "[0..<2] = [0, Suc 0]"
  by (simp add: numeral_2_eq_2)

lemma orphan_unrelated:
  "bumper_match (\<lambda>h. \<lparr>parent = None, obstacle_return = True\<rparr>) c f \<longleftrightarrow> c \<noteq> f"
  by (simp add: bumper_match_def IsRelated_def IsAntecedent_unfold)

lemma family_walks:
  "\<not> IsAntecedent family a 0" "IsAntecedent family a 6 \<longleftrightarrow> a = 0"
  "IsAntecedent family a (Suc 0) \<longleftrightarrow> a = 6 \<or> a = 0"
  "IsAntecedent family a 2 \<longleftrightarrow> a = Suc 0 \<or> a = 6 \<or> a = 0"
  "\<not> IsAntecedent family a 3" "\<not> IsAntecedent family a 4" "\<not> IsAntecedent family a 5"
proof -
  show 0: "\<not> IsAntecedent family a 0" by (subst IsAntecedent_unfold) (simp add: family_def)
  show 6: "IsAntecedent family a 6 \<longleftrightarrow> a = 0"
    by (subst IsAntecedent_unfold) (auto simp add: family_def 0)
  show 1: "IsAntecedent family a (Suc 0) \<longleftrightarrow> a = 6 \<or> a = 0"
    by (subst IsAntecedent_unfold) (auto simp add: family_def 6)
  show "IsAntecedent family a 2 \<longleftrightarrow> a = Suc 0 \<or> a = 6 \<or> a = 0"
    by (subst IsAntecedent_unfold) (auto simp add: family_def 1)
  show "\<not> IsAntecedent family a 3" by (subst IsAntecedent_unfold) (simp add: family_def)
  show "\<not> IsAntecedent family a 4" by (subst IsAntecedent_unfold) (simp add: family_def)
  show "\<not> IsAntecedent family a 5" by (subst IsAntecedent_unfold) (simp add: family_def)
qed

lemma family_matches:
  "\<not> bumper_match family 0 (Suc 0)" "\<not> bumper_match family 6 (Suc 0)"
  "\<not> bumper_match family (Suc 0) (Suc 0)"
  "\<not> bumper_match family 2 (Suc 0)" "\<not> bumper_match family 4 (Suc 0)"
  "bumper_match family 3 (Suc 0)" "bumper_match family 5 (Suc 0)"
  by (simp_all add: bumper_match_def IsRelated_def family_walks) (simp_all add: family_def)

lemma family_cast:
  "0.05 < r \<Longrightarrow> r \<le> 0.3 \<Longrightarrow>
   ray_mod (Model_Raytrace line_of_crossings (Suc 0) p r (bumper_match family)) = Some 3"
  by (simp add: Model_Raytrace_def line_of_crossings_def family_matches)

lemma file_one_loads:
  "Load file_one raw (ModelBumper_new w) =
     Inr ((ModelBumper_new w)\<lparr>bumper_count := 1, bumpers := Some [strip_02]\<rparr>)"
proof -
  have e: "PropertyExists file_one ''bcount''" and c: "ReadInt file_one ''bcount'' 0 = 1"
    and l: "ReadLength file_one ''blength'' 0 = 0.2"
    by (simp_all add: PropertyExists_def ReadInt_def ReadLength_def file_one_def)
  have k: "indexed_key ''bpose'' 0 = ''bpose[0]''" "indexed_key ''blength'' 0 = ''blength[0]''"
    by (simp_all add: indexed_key_def printf_d_digit digit_char_def)
  have "loaded_config file_one 0.2 0 = strip_02"
    by (simp add: loaded_config_def k strip_02_def ReadTupleLength_def ReadTupleAngle_def
        ReadLength_def file_one_def)
  then show ?thesis using Load_some[of file_one raw "ModelBumper_new w"] e c l by simp
qed

lemma file_one_loaded: "Load file_one raw (ModelBumper_new 0) = Inr loaded_one"
  unfolding file_one_loads by (simp add: loaded_one_def ModelBumper_new_def)

lemma file_three_reloads:
  "Load file_three raw m =
     Inr (m\<lparr>bumper_count := 3, bumpers := Some [strip_02, strip_02, strip_02]\<rparr>)"
proof -
  have e: "PropertyExists file_three ''bcount''" and c: "ReadInt file_three ''bcount'' 0 = 3"
    and l: "ReadLength file_three ''blength'' 0 = 0.2"
    by (simp_all add: PropertyExists_def ReadInt_def ReadLength_def file_three_def)
  have k: "indexed_key ''bpose'' 0 = ''bpose[0]''" "indexed_key ''blength'' 0 = ''blength[0]''"
    "indexed_key ''bpose'' (Suc 0) = ''bpose[1]''" "indexed_key ''blength'' (Suc 0) = ''blength[1]''"
    "indexed_key ''bpose'' 2 = ''bpose[2]''" "indexed_key ''blength'' 2 = ''blength[2]''"
    by (simp_all add: indexed_key_def printf_d_digit digit_char_def)
  have "loaded_config file_three 0.2 0 = strip_02" "loaded_config file_three 0.2 (Suc 0) = strip_02"
    "loaded_config file_three 0.2 2 = strip_02"
    by (simp_all add: loaded_config_def k strip_02_def ReadTupleLength_def ReadTupleAngle_def
        ReadLength_def file_three_def)
  moreover have "[0..<nat 3] = [0, Suc 0, 2]" by (simp add: upt_rec)
  ultimately show ?thesis using Load_some[of file_three raw m] e c l by simp
qed

lemma length_strip_02: "length_m strip_02 = 0.2"
  by (simp add: strip_02_def)

lemma Startup_loaded_in_step: "in_step (Startup loaded_one) [strip_02]"
  by (simp add: in_step_def Startup_def SetWatts_def loaded_one_def)

lemma after_hit_in_step: "in_step after_hit [strip_02]"
  by (simp add: in_step_def after_hit_def)

lemma first_tick_hit: "Update tick_hit (Startup loaded_one) = Inr after_hit"
  unfolding Update_in_step[OF Startup_loaded_in_step]
  by (simp add: Startup_def SetWatts_def loaded_one_def BUMPER_WATTS_def cells_before_def
      sample_after_def tick_hit_def after_hit_def length_strip_02)

lemma second_tick_miss:
  "Update tick_miss after_hit =
     Inr (after_hit\<lparr>samples := Some \<lparr>ident = 0, cells = [\<lparr>hit = None, hit_point = (1, 2)\<rparr>]\<rparr>,
                    issued := [(probe strip_02, 0.2), (probe strip_02, 0.2)]\<rparr>)"
  unfolding Update_in_step[OF after_hit_in_step]
  by (simp add: cells_before_def sample_after_def tick_miss_def after_hit_def length_strip_02)

section \<open>Theorems\<close>

text \<open>
  C1. For every transducer of the array, in index order, Update casts one ray: from the
  probe pose of the transducer, with the length of the transducer as its range, and with
  \<open>bumper_match\<close> as the matcher. What that very call of \<open>Raytrace\<close> returns is what
  the sample of the transducer gets: its model as \<open>hit\<close> and, when there is one, the x
  and y of its pose as \<open>hit_point\<close>. The heading of the probe is the heading of the
  transducer plus \<open>\<pi>/2\<close> (90 degrees), its x is the transducer's x minus half the length
  times the cosine of the probe heading, its y the transducer's y minus half the length
  times the sine of the probe heading. For a transducer at (0, 0) with heading 0 and
  length 0.2 the probe has heading \<open>\<pi>/2\<close> and origin (0, -0.1), and the cast has range
  0.2. The object is in step with its transducers, so Update runs to its end.
\<close>

theorem Update_probe_pose_and_cast:
  assumes "in_step m bs"
  shows "(\<exists>m' buf. Update e m = Inr m' \<and>
            issued m' = issued m @ map (\<lambda>b. (probe b, length_m b)) bs \<and>
            samples m' = Some buf \<and> length (cells buf) = length bs \<and>
            (\<forall>t<length bs.
               hit (cells buf ! t) =
                 ray_mod (Raytrace e (probe (bs ! t)) (length_m (bs ! t))
                            (bumper_match (world e))) \<and>
               (hit (cells buf ! t) \<noteq> None \<longrightarrow>
                  hit_point (cells buf ! t) =
                    (pose_x (ray_pose (Raytrace e (probe (bs ! t)) (length_m (bs ! t))
                                         (bumper_match (world e)))),
                     pose_y (ray_pose (Raytrace e (probe (bs ! t)) (length_m (bs ! t))
                                         (bumper_match (world e)))))))) \<and>
         (\<forall>b. pose_a (probe b) = pose_a (pose b) + pi / 2 \<and>
              pose_x (probe b) = pose_x (pose b) - length_m b / 2 * cos (pose_a (probe b)) \<and>
              pose_y (probe b) = pose_y (pose b) - length_m b / 2 * sin (pose_a (probe b))) \<and>
         (\<forall>z. pose_a (probe \<lparr>pose = \<lparr>pose_x = 0, pose_y = 0, pose_z = z, pose_a = 0\<rparr>,
                              length_m = 0.2\<rparr>) = pi / 2 \<and>
              pose_x (probe \<lparr>pose = \<lparr>pose_x = 0, pose_y = 0, pose_z = z, pose_a = 0\<rparr>,
                              length_m = 0.2\<rparr>) = 0 \<and>
              pose_y (probe \<lparr>pose = \<lparr>pose_x = 0, pose_y = 0, pose_z = z, pose_a = 0\<rparr>,
                              length_m = 0.2\<rparr>) = - 0.1)"
  unfolding Update_in_step[OF assms]
  by (simp add: probe_explicit sample_after_hit sample_after_hit_point Let_def)

theorem Update_probe_pose_and_cast_witness:
  "Load file_one raw_config (ModelBumper_new 0) = Inr loaded_one \<and>
   in_step (Startup loaded_one) [strip_02] \<and>
   (\<exists>m' buf. Update tick_probe (Startup loaded_one) = Inr m' \<and>
      map (\<lambda>c. (pose_x (fst c), pose_y (fst c), pose_a (fst c), snd c)) (issued m') =
        [(0, - 0.1, pi / 2, 0.2)] \<and>
      samples m' = Some buf \<and> hit (cells buf ! 0) = Some 7 \<and>
      hit_point (cells buf ! 0) = (0, - 0.05))"
proof -
  have p: "pose_x (probe strip_02) = 0" "pose_y (probe strip_02) = - (1 / 10)"
    "pose_a (probe strip_02) = pi / 2" "length_m strip_02 = 1 / 5"
    by (simp_all add: probe_explicit strip_02_def)
  have r: "Raytrace tick_probe (probe strip_02) (length_m strip_02)
             (bumper_match (world tick_probe)) =
           \<lparr>ray_mod = Some 7,
            ray_pose = \<lparr>pose_x = 0, pose_y = - 0.05, pose_z = 0, pose_a = 0\<rparr>,
            ray_range = 0.05\<rparr>"
    by (simp add: tick_probe_def p)
  from Update_probe_pose_and_cast[OF Startup_loaded_in_step, of tick_probe]
  obtain m' buf where u: "Update tick_probe (Startup loaded_one) = Inr m'"
    and i: "issued m' = issued (Startup loaded_one) @ map (\<lambda>b. (probe b, length_m b)) [strip_02]"
    and b: "samples m' = Some buf"
    and h: "\<forall>t<length [strip_02].
               hit (cells buf ! t) =
                 ray_mod (Raytrace tick_probe (probe ([strip_02] ! t)) (length_m ([strip_02] ! t))
                            (bumper_match (world tick_probe))) \<and>
               (hit (cells buf ! t) \<noteq> None \<longrightarrow>
                  hit_point (cells buf ! t) =
                    (pose_x (ray_pose (Raytrace tick_probe (probe ([strip_02] ! t))
                                         (length_m ([strip_02] ! t))
                                         (bumper_match (world tick_probe)))),
                     pose_y (ray_pose (Raytrace tick_probe (probe ([strip_02] ! t))
                                         (length_m ([strip_02] ! t))
                                         (bumper_match (world tick_probe))))))"
    by blast
  from h have "hit (cells buf ! 0) = Some 7" "hit_point (cells buf ! 0) = (0, - 0.05)"
    by (simp_all add: r)
  moreover have "map (\<lambda>c. (pose_x (fst c), pose_y (fst c), pose_a (fst c), snd c)) (issued m') =
        [(0, - 0.1, pi / 2, 0.2)]"
    unfolding i by (simp add: p Startup_def SetWatts_def loaded_one_def)
  ultimately show ?thesis
    using u b file_one_loaded[of raw_config] Startup_loaded_in_step by simp
qed

text \<open>
  C2. The matcher accepts a candidate exactly when the candidate returns obstacles and is
  neither the finder, nor an ancestor of the finder, nor a descendant of the finder: no
  chain of one or more parent links leads from the finder to the candidate or from the
  candidate to the finder. So a cast of the modelled engine with this matcher never
  returns the casting model, an ancestor or a descendant of it, or a model that does not
  return obstacles; and after an Update whose casts go to that engine no sample names
  such a model as the hit. This holds in every world, however the handles are numbered.
  In the example the ray of model 1 crosses its child, itself, its parent (whose handle
  is 6), its grandparent and a model that returns no obstacles before it reaches model 3,
  and model 3 is the hit.
\<close>

theorem bumper_match_excludes_relatives:
  "(bumper_match ms candidate finder \<longleftrightarrow>
      obstacle_return (ms candidate) \<and> candidate \<noteq> finder \<and>
      (finder, candidate) \<notin> (parent_links ms)\<^sup>+ \<and>
      (candidate, finder) \<notin> (parent_links ms)\<^sup>+) \<and>
   (\<forall>h. ray_mod (Model_Raytrace idx self p r (bumper_match ms)) = Some h \<longrightarrow>
      obstacle_return (ms h) \<and> h \<noteq> self \<and>
      (self, h) \<notin> (parent_links ms)\<^sup>+ \<and> (h, self) \<notin> (parent_links ms)\<^sup>+) \<and>
   (in_step m bs \<and> Raytrace e = Model_Raytrace idx self \<longrightarrow>
      (\<exists>m' buf. Update e m = Inr m' \<and> samples m' = Some buf \<and> length (cells buf) = length bs \<and>
         (\<forall>t<length bs. \<forall>h. hit (cells buf ! t) = Some h \<longrightarrow>
            obstacle_return (world e h) \<and> h \<noteq> self \<and>
            (self, h) \<notin> (parent_links (world e))\<^sup>+ \<and>
            (h, self) \<notin> (parent_links (world e))\<^sup>+)))"
proof (intro conjI allI impI)
  show "bumper_match ms candidate finder \<longleftrightarrow>
      obstacle_return (ms candidate) \<and> candidate \<noteq> finder \<and>
      (finder, candidate) \<notin> (parent_links ms)\<^sup>+ \<and>
      (candidate, finder) \<notin> (parent_links ms)\<^sup>+"
    by (rule bumper_match_by_links)
next
  fix h assume "ray_mod (Model_Raytrace idx self p r (bumper_match ms)) = Some h"
  then have "bumper_match ms h self" by (rule Model_Raytrace_accepts)
  then show "obstacle_return (ms h)" "h \<noteq> self" "(self, h) \<notin> (parent_links ms)\<^sup>+"
    "(h, self) \<notin> (parent_links ms)\<^sup>+"
    by (simp_all add: bumper_match_by_links)
next
  assume a: "in_step m bs \<and> Raytrace e = Model_Raytrace idx self"
  then have s: "in_step m bs" and r: "Raytrace e = Model_Raytrace idx self" by simp_all
  have "\<forall>t<length bs. \<forall>h.
          hit (sample_after e (bs ! t) (cells_before e m ! t)) = Some h \<longrightarrow>
            obstacle_return (world e h) \<and> h \<noteq> self \<and>
            (self, h) \<notin> (parent_links (world e))\<^sup>+ \<and>
            (h, self) \<notin> (parent_links (world e))\<^sup>+"
  proof (intro allI impI)
    fix t h assume "hit (sample_after e (bs ! t) (cells_before e m ! t)) = Some h"
    then have "bumper_match (world e) h self"
      unfolding sample_after_hit r by (rule Model_Raytrace_accepts)
    then show "obstacle_return (world e h) \<and> h \<noteq> self \<and>
            (self, h) \<notin> (parent_links (world e))\<^sup>+ \<and>
            (h, self) \<notin> (parent_links (world e))\<^sup>+"
      by (simp add: bumper_match_by_links)
  qed
  then show "\<exists>m' buf. Update e m = Inr m' \<and> samples m' = Some buf \<and> length (cells buf) = length bs \<and>
         (\<forall>t<length bs. \<forall>h. hit (cells buf ! t) = Some h \<longrightarrow>
            obstacle_return (world e h) \<and> h \<noteq> self \<and>
            (self, h) \<notin> (parent_links (world e))\<^sup>+ \<and>
            (h, self) \<notin> (parent_links (world e))\<^sup>+)"
    unfolding Update_in_step[OF s] by simp
qed

theorem bumper_match_excludes_relatives_witness:
  "(1, 6) \<in> (parent_links family)\<^sup>+ \<and> (1, 0) \<in> (parent_links family)\<^sup>+ \<and>
   (2, 1) \<in> (parent_links family)\<^sup>+ \<and>
   \<not> bumper_match family 6 1 \<and> \<not> bumper_match family 0 1 \<and> \<not> bumper_match family 1 1 \<and>
   \<not> bumper_match family 2 1 \<and> \<not> bumper_match family 4 1 \<and> bumper_match family 3 1 \<and>
   ray_mod (Model_Raytrace line_of_crossings 1 Pose_default 0.2 (bumper_match family)) = Some 3 \<and>
   in_step (Startup loaded_one) [strip_02] \<and>
   Raytrace tick_family = Model_Raytrace line_of_crossings 1 \<and>
   (\<exists>m' buf. Update tick_family (Startup loaded_one) = Inr m' \<and> samples m' = Some buf \<and>
      hit (cells buf ! 0) = Some 3)"
proof -
  have l: "(1, 6) \<in> (parent_links family)\<^sup>+" "(1, 0) \<in> (parent_links family)\<^sup>+"
    "(2, 1) \<in> (parent_links family)\<^sup>+"
    by (simp_all add: IsAntecedent_is_ancestry[symmetric] family_walks)
  have m: "\<not> bumper_match family 6 1" "\<not> bumper_match family 0 1" "\<not> bumper_match family 1 1"
    "\<not> bumper_match family 2 1" "\<not> bumper_match family 4 1" "bumper_match family 3 1"
    using bumper_match_excludes_relatives[of family 6 1]
      bumper_match_excludes_relatives[of family 0 1]
      bumper_match_excludes_relatives[of family 1 1]
      bumper_match_excludes_relatives[of family 2 1]
      bumper_match_excludes_relatives[of family 4 1]
      bumper_match_excludes_relatives[of family 3 1]
    by (simp_all add: IsAntecedent_is_ancestry[symmetric] family_walks) (simp_all add: family_def)
  have r: "Raytrace tick_family = Model_Raytrace line_of_crossings 1"
    and w: "world tick_family = family"
    by (simp_all add: tick_family_def)
  have c: "ray_mod (Model_Raytrace line_of_crossings 1 p 0.2 (bumper_match family)) = Some 3" for p
    using family_cast[of "0.2" p] by simp
  have "\<exists>m' buf. Update tick_family (Startup loaded_one) = Inr m' \<and> samples m' = Some buf \<and>
      hit (cells buf ! 0) = Some 3"
    unfolding Update_in_step[OF Startup_loaded_in_step]
    using family_cast[of "1 / 5" "probe strip_02"]
    by (simp add: sample_after_hit r w length_strip_02)
  with l m r c Startup_loaded_in_step show ?thesis by blast
qed

text \<open>
  C3. A worldfile that declares each key once, a count \<open>N \<ge> 1\<close> and a default length
  \<open>L\<close>: Load makes an array of \<open>N\<close> transducers in which index \<open>i\<close> has the length
  declared for \<open>blength[i]\<close> where there is one and \<open>L\<close> where there is none. The same
  declarations in any other order give the same object, whatever the new array held
  before it was filled.
\<close>

theorem Load_default_then_override:
  assumes "distinct (map fst wfile)" and "mset wfile' = mset wfile"
    and "map_of wfile ''bcount'' = Some (WInt (int N))" and "1 \<le> N"
    and "map_of wfile ''blength'' = Some (WLength L)"
  shows "\<exists>m' bs. Load wfile raw m = Inr m' \<and> Load wfile' raw' m = Inr m' \<and>
           bumper_count m' = int N \<and> bumpers m' = Some bs \<and> length bs = N \<and>
           (\<forall>i<N. (\<forall>v. map_of wfile (indexed_key ''blength'' i) = Some (WLength v)
                          \<longrightarrow> length_m (bs ! i) = v) \<and>
                   (map_of wfile (indexed_key ''blength'' i) = None \<longrightarrow> length_m (bs ! i) = L))"
proof -
  have ex: "PropertyExists wfile ''bcount''" and rd: "ReadInt wfile ''bcount'' 0 = int N"
    and cl: "ReadLength wfile ''blength'' 0 = L"
    using assms by (simp_all add: PropertyExists_def ReadInt_def ReadLength_def)
  let ?bs = "map (loaded_config wfile L) [0..<N]"
  have l: "Load wfile raw m = Inr (m\<lparr>bumper_count := int N, bumpers := Some ?bs\<rparr>)"
    using Load_some[of wfile raw m] ex rd cl assms(4) by simp
  have "Load wfile' raw' m = Load wfile raw m"
    by (rule Load_reordered) (rule map_of_reordered[OF assms(1,2)])
  moreover have "\<forall>i<N. (\<forall>v. map_of wfile (indexed_key ''blength'' i) = Some (WLength v)
                          \<longrightarrow> length_m (?bs ! i) = v) \<and>
                   (map_of wfile (indexed_key ''blength'' i) = None \<longrightarrow> length_m (?bs ! i) = L)"
    by (simp add: loaded_config_def ReadLength_def)
  ultimately show ?thesis using l by simp
qed

theorem Load_default_then_override_witness:
  "\<exists>m'. Load file_a raw_config (ModelBumper_new 0) = Inr m' \<and>
         Load file_b (\<lambda>i. \<lparr>pose = Pose_default, length_m = 7\<rparr>) (ModelBumper_new 0) = Inr m' \<and>
         map_option (map length_m) (bumpers m') = Some [0.1, 0.3, 0.1]"
proof -
  have d: "distinct (map fst file_a)" by (simp add: file_a_def)
  have p: "mset file_b = mset file_a" by (simp add: file_a_def file_b_def)
  have c: "map_of file_a ''bcount'' = Some (WInt (int 3))" by (simp add: file_a_def)
  have n: "1 \<le> (3::nat)" by simp
  have b: "map_of file_a ''blength'' = Some (WLength 0.1)" by (simp add: file_a_def)
  from Load_default_then_override[OF d p c n b, of raw_config "ModelBumper_new 0"
      "\<lambda>i. \<lparr>pose = Pose_default, length_m = 7\<rparr>"]
  obtain m' bs where l: "Load file_a raw_config (ModelBumper_new 0) = Inr m'"
    and l': "Load file_b (\<lambda>i. \<lparr>pose = Pose_default, length_m = 7\<rparr>) (ModelBumper_new 0) = Inr m'"
    and bs: "bumpers m' = Some bs" "length bs = 3"
    and nth: "\<forall>i<3. (\<forall>v. map_of file_a (indexed_key ''blength'' i) = Some (WLength v)
                          \<longrightarrow> length_m (bs ! i) = v) \<and>
                   (map_of file_a (indexed_key ''blength'' i) = None \<longrightarrow> length_m (bs ! i) = 0.1)"
    by blast
  have k: "indexed_key ''blength'' 0 = ''blength[0]''" "indexed_key ''blength'' (Suc 0) = ''blength[1]''"
    "indexed_key ''blength'' 2 = ''blength[2]''"
    by (simp_all add: indexed_key_def printf_d_digit digit_char_def)
  have f0: "map_of file_a (indexed_key ''blength'' 0) = None"
    and f1: "map_of file_a (indexed_key ''blength'' (Suc 0)) = Some (WLength 0.3)"
    and f2: "map_of file_a (indexed_key ''blength'' 2) = None"
    by (simp_all add: k file_a_def)
  have i: "0 < (3::nat)" "Suc 0 < 3" "2 < (3::nat)" by simp_all
  have "length_m (bs ! 0) = 0.1" using nth i(1) f0 by blast
  moreover have "length_m (bs ! Suc 0) = 0.3" using nth i(2) f1 by blast
  moreover have "length_m (bs ! 2) = 0.1" using nth i(3) f2 by blast
  ultimately have "length_m (bs ! 0) = 0.1" "length_m (bs ! Suc 0) = 0.3" "length_m (bs ! 2) = 0.1"
    by blast+
  then have "map length_m bs = [0.1, 0.3, 0.1]"
    using bs(2) by (intro nth_equalityI) (auto simp add: less_Suc_eq numeral_3_eq_3 numeral_2_eq_2)
  with l l' bs show ?thesis by simp
qed

text \<open>
  C4, as the code has it. After an Update of an object in step with its transducers,
  for every index \<open>t\<close>: the field \<open>hit\<close> of sample \<open>t\<close> is the model that the cast for
  \<open>t\<close> returned, null exactly when the cast missed; when the cast hit, \<open>hit_point\<close>
  is the x and y of the pose this cast returned; when it missed, \<open>hit_point\<close> is
  not written and holds what it held before the Update (the point of an earlier tick, or
  what the new array held).
\<close>

theorem Update_sample_hit_and_point:
  assumes "in_step m bs"
  shows "\<exists>m' buf. Update e m = Inr m' \<and> samples m' = Some buf \<and> length (cells buf) = length bs \<and>
           (\<forall>t<length bs.
              hit (cells buf ! t) =
                ray_mod (Raytrace e (probe (bs ! t)) (length_m (bs ! t)) (bumper_match (world e))) \<and>
              hit_point (cells buf ! t) =
                (let ray = Raytrace e (probe (bs ! t)) (length_m (bs ! t)) (bumper_match (world e))
                 in if ray_mod ray \<noteq> None then (pose_x (ray_pose ray), pose_y (ray_pose ray))
                    else hit_point (cells_before e m ! t)))"
  unfolding Update_in_step[OF assms]
  by (simp add: sample_after_hit sample_after_hit_point)

theorem Update_sample_hit_and_point_witness:
  "in_step after_hit [strip_02] \<and>
   (\<exists>m' buf. Update tick_miss after_hit = Inr m' \<and> samples m' = Some buf \<and>
      hit (cells buf ! 0) = None \<and> hit_point (cells buf ! 0) = (1, 2)) \<and>
   in_step (Startup loaded_one) [strip_02] \<and>
   (\<exists>m' buf. Update tick_hit (Startup loaded_one) = Inr m' \<and> samples m' = Some buf \<and>
      hit (cells buf ! 0) = Some 7 \<and> hit_point (cells buf ! 0) = (1, 2))"
proof -
  have "\<exists>m' buf. Update tick_miss after_hit = Inr m' \<and> samples m' = Some buf \<and>
      hit (cells buf ! 0) = None \<and> hit_point (cells buf ! 0) = (1, 2)"
    using Update_sample_hit_and_point[OF after_hit_in_step, of tick_miss]
    by (auto simp add: tick_miss_def cells_before_def after_hit_def)
  moreover have "\<exists>m' buf. Update tick_hit (Startup loaded_one) = Inr m' \<and> samples m' = Some buf \<and>
      hit (cells buf ! 0) = Some 7 \<and> hit_point (cells buf ! 0) = (1, 2)"
    using Update_sample_hit_and_point[OF Startup_loaded_in_step, of tick_hit]
    by (auto simp add: tick_hit_def)
  ultimately show ?thesis using after_hit_in_step Startup_loaded_in_step by blast
qed

text \<open>
  C4, as it is stated, fails: a model with one transducer is loaded and started; in the
  first tick the cast hits model 7 at (1, 2); in the second tick the cast misses.
  Afterwards \<open>hit\<close> is null and \<open>hit_point\<close> is still (1, 2), the point of the first
  tick.
\<close>

theorem miss_keeps_previous_hit_point:
  "Load file_one raw_config (ModelBumper_new 0) = Inr loaded_one \<and>
   Update tick_hit (Startup loaded_one) = Inr after_hit \<and>
   samples after_hit = Some \<lparr>ident = 0, cells = [\<lparr>hit = Some 7, hit_point = (1, 2)\<rparr>]\<rparr> \<and>
   Update tick_miss after_hit =
     Inr (after_hit\<lparr>samples := Some \<lparr>ident = 0, cells = [\<lparr>hit = None, hit_point = (1, 2)\<rparr>]\<rparr>,
                    issued := [(probe strip_02, 0.2), (probe strip_02, 0.2)]\<rparr>)"
  by (simp add: file_one_loaded first_tick_hit second_tick_miss) (simp add: after_hit_def)

text \<open>
  C5. A model is loaded with count 1, started, and updated once; then it is loaded again
  with count 3. Load leaves the pointer \<open>samples\<close> alone: the object still holds the
  array of one cell that the first Update made. The next Update finds the pointer not
  null, makes no new array, and in its second round writes \<open>samples[1]\<close>, past the end
  of that array.
\<close>

theorem reconfigured_Update_overruns_old_buffer:
  "Load file_one raw_config (ModelBumper_new 0) = Inr loaded_one \<and>
   Update tick_hit (Startup loaded_one) = Inr after_hit \<and>
   Load file_three raw_config after_hit =
     Inr (after_hit\<lparr>bumper_count := 3, bumpers := Some [strip_02, strip_02, strip_02]\<rparr>) \<and>
   samples (after_hit\<lparr>bumper_count := 3, bumpers := Some [strip_02, strip_02, strip_02]\<rparr>) =
     Some \<lparr>ident = 0, cells = [\<lparr>hit = Some 7, hit_point = (1, 2)\<rparr>]\<rparr> \<and>
   Update tick_hit (after_hit\<lparr>bumper_count := 3, bumpers := Some [strip_02, strip_02, strip_02]\<rparr>) =
     Inl OutOfBounds"
proof -
  have "Update_loop tick_hit [strip_02, strip_02, strip_02] 3 0
          ([\<lparr>hit = Some 7, hit_point = (1, 2)\<rparr>], issued after_hit) = Inl OutOfBounds"
    by (rule Update_loop_overrun_later) simp_all
  then have "Update tick_hit (after_hit\<lparr>bumper_count := 3, bumpers := Some [strip_02, strip_02, strip_02]\<rparr>) =
     Inl OutOfBounds"
    by (simp add: Update_def after_hit_def)
  then show ?thesis
    by (simp add: file_one_loaded first_tick_hit file_three_reloads) (simp add: after_hit_def)
qed

text \<open>
  C6. A new model is loaded from a worldfile that declares a count, and started. Then it
  holds no sample array. The first Update, in whatever surroundings, makes one, with as
  many cells as the count; that is the one allocation. After any further run of Updates
  the object holds the same array object, of the same length, and has allocated nothing
  more.
\<close>

theorem sample_buffer_lazy_allocation:
  assumes "PropertyExists wfile ''bcount''" and "Load wfile raw (ModelBumper_new w) = Inr m"
  shows "samples (Startup m) = None \<and> 1 \<le> bumper_count m \<and>
         (\<forall>e. \<exists>m1 buf.
            Update e (Startup m) = Inr m1 \<and> samples m1 = Some buf \<and>
            int (length (cells buf)) = bumper_count m \<and>
            allocated m1 = Suc (allocated (Startup m)) \<and>
            (\<forall>es. \<exists>m2 buf2.
               Updates es m1 = Inr m2 \<and> samples m2 = Some buf2 \<and>
               ident buf2 = ident buf \<and> length (cells buf2) = length (cells buf) \<and>
               allocated m2 = allocated m1))"
proof -
  have none: "samples (ModelBumper_new w) = None" by (simp add: ModelBumper_new_def)
  from Load_in_step_field[OF assms(1,2) none]
  obtain bs where s: "in_step m bs" and sm: "samples m = None" and pos: "0 < bumper_count m"
    by auto
  have s1: "in_step (Startup m) bs" by (rule Startup_in_step[OF s])
  have n1: "samples (Startup m) = None" using sm by (simp add: Startup_def SetWatts_def)
  have cnt: "bumper_count m = int (length bs)" using s by (simp add: in_step_def)
  have "\<exists>m1 buf.
            Update e (Startup m) = Inr m1 \<and> samples m1 = Some buf \<and>
            int (length (cells buf)) = bumper_count m \<and>
            allocated m1 = Suc (allocated (Startup m)) \<and>
            (\<forall>es. \<exists>m2 buf2.
               Updates es m1 = Inr m2 \<and> samples m2 = Some buf2 \<and>
               ident buf2 = ident buf \<and> length (cells buf2) = length (cells buf) \<and>
               allocated m2 = allocated m1)" for e
  proof -
    obtain m1 where u: "Update e (Startup m) = Inr m1"
      using Update_in_step[OF s1, of e] by simp
    have k: "in_step m1 bs" by (rule Update_keeps_in_step[OF s1 u])
    from u obtain buf where b: "samples m1 = Some buf"
      and a: "allocated m1 = Suc (allocated (Startup m))"
      unfolding Update_in_step[OF s1] using n1 by auto
    have l: "int (length (cells buf)) = bumper_count m"
      using k b cnt by (simp add: in_step_def)
    have "\<forall>es. \<exists>m2 buf2.
               Updates es m1 = Inr m2 \<and> samples m2 = Some buf2 \<and>
               ident buf2 = ident buf \<and> length (cells buf2) = length (cells buf) \<and>
               allocated m2 = allocated m1"
      using Updates_reuse_length[OF k b] by blast
    with u b a l show ?thesis by blast
  qed
  moreover have "1 \<le> bumper_count m" using pos by simp
  ultimately show ?thesis using n1 by blast
qed

theorem sample_buffer_lazy_allocation_witness:
  "PropertyExists file_one ''bcount'' \<and>
   Load file_one raw_config (ModelBumper_new 0) = Inr loaded_one \<and>
   samples (Startup loaded_one) = None \<and>
   (\<exists>m1 buf. Update tick_hit (Startup loaded_one) = Inr m1 \<and> samples m1 = Some buf \<and>
      length (cells buf) = 1 \<and> allocated m1 = 1 \<and>
      (\<exists>m2 buf2. Updates [tick_miss, tick_hit] m1 = Inr m2 \<and> samples m2 = Some buf2 \<and>
         ident buf2 = ident buf \<and> length (cells buf2) = 1 \<and> allocated m2 = 1))"
proof -
  have e: "PropertyExists file_one ''bcount''"
    by (simp add: PropertyExists_def file_one_def)
  have l: "Load file_one raw_config (ModelBumper_new 0) = Inr loaded_one"
    by (rule file_one_loaded)
  have c: "bumper_count loaded_one = 1" "allocated (Startup loaded_one) = 0"
    by (simp_all add: loaded_one_def Startup_def SetWatts_def)
  from sample_buffer_lazy_allocation[OF e l]
  have n: "samples (Startup loaded_one) = None"
    and a: "\<forall>e. \<exists>m1 buf.
            Update e (Startup loaded_one) = Inr m1 \<and> samples m1 = Some buf \<and>
            int (length (cells buf)) = bumper_count loaded_one \<and>
            allocated m1 = Suc (allocated (Startup loaded_one)) \<and>
            (\<forall>es. \<exists>m2 buf2.
               Updates es m1 = Inr m2 \<and> samples m2 = Some buf2 \<and>
               ident buf2 = ident buf \<and> length (cells buf2) = length (cells buf) \<and>
               allocated m2 = allocated m1)"
    by blast+
  from a obtain m1 buf where u: "Update tick_hit (Startup loaded_one) = Inr m1"
    and s: "samples m1 = Some buf" and len: "length (cells buf) = 1" and al: "allocated m1 = 1"
    and rest: "\<forall>es. \<exists>m2 buf2.
               Updates es m1 = Inr m2 \<and> samples m2 = Some buf2 \<and>
               ident buf2 = ident buf \<and> length (cells buf2) = length (cells buf) \<and>
               allocated m2 = allocated m1"
    unfolding c by (metis One_nat_def of_nat_eq_1_iff)
  from rest obtain m2 buf2 where "Updates [tick_miss, tick_hit] m1 = Inr m2"
    "samples m2 = Some buf2" "ident buf2 = ident buf" "length (cells buf2) = 1" "allocated m2 = 1"
    unfolding len al by blast
  with e l n u s len al show ?thesis by blast
qed

text \<open>
  C7. Without a transducer array, or with a count below 1, Update returns the object as it
  was: no cast is issued, no array is allocated, the sample array and the transducer array
  are unchanged.
\<close>

theorem Update_unconfigured_is_noop:
  "bumpers m = None \<or> bumper_count m < 1 \<Longrightarrow> Update e m = Inr m"
  by (auto simp add: Update_def split: option.splits)

theorem Update_unconfigured_is_noop_witness:
  "bumpers (ModelBumper_new 0) = None \<and>
   Update tick_miss (ModelBumper_new 0) = Inr (ModelBumper_new 0) \<and>
   bumpers ((ModelBumper_new 0)\<lparr>bumpers := Some []\<rparr>) \<noteq> None \<and>
   bumper_count ((ModelBumper_new 0)\<lparr>bumpers := Some []\<rparr>) = 0 \<and>
   Update tick_miss ((ModelBumper_new 0)\<lparr>bumpers := Some []\<rparr>) =
     Inr ((ModelBumper_new 0)\<lparr>bumpers := Some []\<rparr>)"
  using Update_unconfigured_is_noop[of "ModelBumper_new 0" tick_miss]
    Update_unconfigured_is_noop[of "(ModelBumper_new 0)\<lparr>bumpers := Some []\<rparr>" tick_miss]
  by (simp add: ModelBumper_new_def)

text \<open>
  C8. Startup sets the power draw to the bumper's fixed wattage, 0.1 W. Shutdown sets
  the power draw to zero and frees the sample array (the pointer is null afterwards),
  and it leaves the transducer array and its count as they were. Shutdown is idempotent:
  a second Shutdown gives the state of the first.
\<close>

theorem Startup_Shutdown_power_and_buffer:
  "watts (Startup m) = 0.1 \<and>
   watts (Shutdown m) = 0 \<and>
   samples (Shutdown m) = None \<and>
   bumpers (Shutdown m) = bumpers m \<and>
   bumper_count (Shutdown m) = bumper_count m \<and>
   Shutdown (Shutdown m) = Shutdown m"
  by (simp add: Startup_def Shutdown_def SetWatts_def BUMPER_WATTS_def Let_def
      split: option.split)

text \<open>
  C9. With the key \<open>bcount\<close> declared and its value 0, Load stops at the assertion that
  the count is positive. With the value -1 it does not: the value is stored in the
  unsigned field before the assertion reads the field, the field then holds 4294967295,
  the assertion passes, and Load goes on to make an array of that many transducers.
\<close>

theorem negative_count_passes_the_assertion:
  "Load file_zero raw_config (ModelBumper_new 0) = Inl AssertionFailed \<and>
   Load file_negative raw_config (ModelBumper_new 0) =
     Inr ((ModelBumper_new 0)
            \<lparr>bumper_count := 4294967295,
             bumpers := Some (map (loaded_config file_negative 0.1) [0..<4294967295])\<rparr>)"
proof -
  have z: "PropertyExists file_zero ''bcount''" "as_unsigned (ReadInt file_zero ''bcount'' 0) = 0"
    by (simp_all add: PropertyExists_def ReadInt_def file_zero_def as_unsigned_def)
  have n: "PropertyExists file_negative ''bcount''"
    "as_unsigned (ReadInt file_negative ''bcount'' 0) = 4294967295"
    "ReadLength file_negative ''blength'' 0 = 0.1"
    by (simp_all add: PropertyExists_def ReadInt_def ReadLength_def file_negative_def
        as_unsigned_def)
  show ?thesis
    by (simp add: Load_closed z n)
qed

text \<open>
  C10. A worldfile declares a count \<open>N \<ge> 1\<close> and no \<open>blength\<close>. Then the default
  length read is 0, and Load does not fail: it makes an array of \<open>N\<close> transducers in
  which every index without a \<open>blength[i]\<close> of its own has length 0. The next Update
  issues the cast of such an index with range 0, and with the modelled engine the sample
  of that index has no hit.
\<close>

theorem missing_default_length_reads_zero:
  assumes "map_of wfile ''bcount'' = Some (WInt (int N))" and "1 \<le> N"
    and "map_of wfile ''blength'' = None" and "samples m = None"
  shows "ReadLength wfile ''blength'' 0 = 0 \<and>
         (\<exists>m' bs m'' buf.
            Load wfile raw m = Inr m' \<and> bumpers m' = Some bs \<and> length bs = N \<and>
            Update e m' = Inr m'' \<and> samples m'' = Some buf \<and> length (cells buf) = N \<and>
            issued m'' = issued m @ map (\<lambda>b. (probe b, length_m b)) bs \<and>
            (\<forall>i<N. map_of wfile (indexed_key ''blength'' i) = None \<longrightarrow>
               length_m (bs ! i) = 0 \<and>
               snd (issued m'' ! (length (issued m) + i)) = 0 \<and>
               (Raytrace e = Model_Raytrace idx self \<longrightarrow> hit (cells buf ! i) = None)))"
proof -
  have ex: "PropertyExists wfile ''bcount''" and rd: "ReadInt wfile ''bcount'' 0 = int N"
    and cl: "ReadLength wfile ''blength'' 0 = 0"
    using assms by (simp_all add: PropertyExists_def ReadInt_def ReadLength_def)
  have pos: "0 < ReadInt wfile ''bcount'' 0" using rd assms(2) by simp
  let ?bs = "map (loaded_config wfile 0) [0..<N]"
  from Load_in_step[OF ex pos assms(4), of raw] rd cl
  obtain m' where l: "Load wfile raw m = Inr m'" and s: "in_step m' ?bs"
    and i: "issued m' = issued m"
    by auto
  have b: "bumpers m' = Some ?bs" using s by (simp add: in_step_def)
  have z: "length_m (?bs ! i) = 0"
    if "i < N" "map_of wfile (indexed_key ''blength'' i) = None" for i
    using that by (simp add: loaded_config_def ReadLength_def)
  let ?cells = "map (\<lambda>t. sample_after e (?bs ! t) (cells_before e m' ! t)) [0..<length ?bs]"
  let ?buf = "\<lparr>ident = (case samples m' of None \<Rightarrow> allocated m' | Some buf \<Rightarrow> ident buf),
              cells = ?cells\<rparr>"
  obtain m'' where u: "Update e m' = Inr m''" and sb: "samples m'' = Some ?buf"
    and iss: "issued m'' = issued m @ map (\<lambda>b. (probe b, length_m b)) ?bs"
    using Update_in_step[OF s, of e] i by simp
  have each: "length_m (?bs ! i) = 0 \<and>
               snd (issued m'' ! (length (issued m) + i)) = 0 \<and>
               (Raytrace e = Model_Raytrace idx self \<longrightarrow> hit (cells ?buf ! i) = None)"
    if a: "i < N" "map_of wfile (indexed_key ''blength'' i) = None" for i
  proof (intro conjI impI)
    show "length_m (?bs ! i) = 0" by (rule z[OF a])
    show "snd (issued m'' ! (length (issued m) + i)) = 0"
      unfolding iss using a z[OF a] by (simp add: nth_append)
    assume r: "Raytrace e = Model_Raytrace idx self"
    have "hit (sample_after e (?bs ! i) (cells_before e m' ! i)) = None"
      unfolding sample_after_hit z[OF a] r by (simp add: Model_Raytrace_zero_range)
    then show "hit (cells ?buf ! i) = None" using a by simp
  qed
  have "Load wfile raw m = Inr m' \<and> bumpers m' = Some ?bs \<and> length ?bs = N \<and>
            Update e m' = Inr m'' \<and> samples m'' = Some ?buf \<and> length (cells ?buf) = N \<and>
            issued m'' = issued m @ map (\<lambda>b. (probe b, length_m b)) ?bs \<and>
            (\<forall>i<N. map_of wfile (indexed_key ''blength'' i) = None \<longrightarrow>
               length_m (?bs ! i) = 0 \<and>
               snd (issued m'' ! (length (issued m) + i)) = 0 \<and>
               (Raytrace e = Model_Raytrace idx self \<longrightarrow> hit (cells ?buf ! i) = None))"
    using l b u sb iss each by simp
  then have "\<exists>m' bs m'' buf.
            Load wfile raw m = Inr m' \<and> bumpers m' = Some bs \<and> length bs = N \<and>
            Update e m' = Inr m'' \<and> samples m'' = Some buf \<and> length (cells buf) = N \<and>
            issued m'' = issued m @ map (\<lambda>b. (probe b, length_m b)) bs \<and>
            (\<forall>i<N. map_of wfile (indexed_key ''blength'' i) = None \<longrightarrow>
               length_m (bs ! i) = 0 \<and>
               snd (issued m'' ! (length (issued m) + i)) = 0 \<and>
               (Raytrace e = Model_Raytrace idx self \<longrightarrow> hit (cells buf ! i) = None))"
    by blast
  with cl show ?thesis by simp
qed

theorem missing_default_length_reads_zero_witness:
  "map_of file_gap ''bcount'' = Some (WInt (int 2)) \<and>
   map_of file_gap ''blength'' = None \<and>
   map_of file_gap (indexed_key ''blength'' 0) = None \<and>
   samples (ModelBumper_new 0) = None \<and>
   (\<exists>m' bs m'' buf.
      Load file_gap raw_config (ModelBumper_new 0) = Inr m' \<and> bumpers m' = Some bs \<and>
      map length_m bs = [0, 0.2] \<and>
      Update tick_touch m' = Inr m'' \<and> map snd (issued m'') = [0, 0.2] \<and>
      samples m'' = Some buf \<and> map hit (cells buf) = [None, Some 3])"
proof -
  have c: "map_of file_gap ''bcount'' = Some (WInt (int 2))"
    and d: "map_of file_gap ''blength'' = None"
    by (simp_all add: file_gap_def)
  have k: "indexed_key ''blength'' 0 = ''blength[0]''"
    "indexed_key ''blength'' (Suc 0) = ''blength[1]''"
    by (simp_all add: indexed_key_def printf_d_digit digit_char_def)
  have g: "map_of file_gap (indexed_key ''blength'' 0) = None"
    by (simp add: k file_gap_def)
  have n: "samples (ModelBumper_new 0) = None" by (simp add: ModelBumper_new_def)
  have r: "Raytrace tick_touch =
             Model_Raytrace (\<lambda>self p. [\<lparr>c_mod = 3, c_pose = p, c_range = 0\<rparr>]) 9"
    by (simp add: tick_touch_def)
  from missing_default_length_reads_zero[OF c _ d n, of raw_config tick_touch
      "\<lambda>self p. [\<lparr>c_mod = 3, c_pose = p, c_range = 0\<rparr>]" 9]
  obtain m' bs m'' buf where l: "Load file_gap raw_config (ModelBumper_new 0) = Inr m'"
    and b: "bumpers m' = Some bs" "length bs = 2"
    and u: "Update tick_touch m' = Inr m''" and s: "samples m'' = Some buf" "length (cells buf) = 2"
    and i: "issued m'' = issued (ModelBumper_new 0) @ map (\<lambda>b. (probe b, length_m b)) bs"
    and z: "\<forall>i<2. map_of file_gap (indexed_key ''blength'' i) = None \<longrightarrow>
               length_m (bs ! i) = 0 \<and>
               snd (issued m'' ! (length (issued (ModelBumper_new 0)) + i)) = 0 \<and>
               (Raytrace tick_touch =
                  Model_Raytrace (\<lambda>self p. [\<lparr>c_mod = 3, c_pose = p, c_range = 0\<rparr>]) 9 \<longrightarrow>
                hit (cells buf ! i) = None)"
    by auto
  have z0: "length_m (bs ! 0) = 0" "hit (cells buf ! 0) = None"
    using z g r by auto
  have e: "PropertyExists file_gap ''bcount''" "ReadInt file_gap ''bcount'' 0 = 2"
    "ReadLength file_gap ''blength'' 0 = 0"
    by (simp_all add: PropertyExists_def ReadInt_def ReadLength_def file_gap_def)
  have bs: "bs = map (loaded_config file_gap 0) [0, Suc 0]"
    using Load_some[of file_gap raw_config "ModelBumper_new 0"] e l b(1) by (simp add: upt_2)
  have b1: "length_m (bs ! Suc 0) = 0.2"
    unfolding bs by (simp add: loaded_config_def k ReadLength_def file_gap_def)
  have st: "in_step m' bs"
    using Load_in_step[OF e(1) _ n, of raw_config] e(2) l b by (auto simp add: in_step_def)
  have "cells buf ! Suc 0 = sample_after tick_touch (bs ! Suc 0) (cells_before tick_touch m' ! Suc 0)"
    using u s(1) b(2) unfolding Update_in_step[OF st] by auto
  then have h1: "hit (cells buf ! Suc 0) = Some 3"
    by (simp add: sample_after_hit b1 r Model_Raytrace_def)
       (simp add: tick_touch_def orphan_unrelated)
  have "map length_m bs = [0, 0.2]"
    using b(2) z0(1) b1 by (intro nth_equalityI) (auto simp add: less_Suc_eq numeral_2_eq_2)
  moreover have "map hit (cells buf) = [None, Some 3]"
    using s(2) z0(2) h1 by (intro nth_equalityI) (auto simp add: less_Suc_eq numeral_2_eq_2)
  moreover have "map snd (issued m'') = map length_m bs"
    unfolding i by (simp add: ModelBumper_new_def comp_def)
  ultimately show ?thesis using c d g n l b(1) u s(1) by auto
qed

end
